theory Spec2Isabelle
  imports Main
begin

section \<open>Data model of the vis-augmenter Vega helpers\<close>

text \<open>
  The helpers of \<^verbatim>\<open>src/plugins/vis_augmenter/public/vega/helpers.ts\<close> work on an
  OpenSearch Dashboards datatable: a list of column descriptors and a list of rows, each
  row a JavaScript object from column ids to cell values. Cell values and timestamps are
  epoch milliseconds and counters: whole numbers far below \<open>2^53\<close>, on which the
  arithmetic of JavaScript numbers is exact. They are modelled as unbounded integers. A
  field that a row does not have reads as \<open>undefined\<close>, which is \<open>None\<close> here.
\<close>

text \<open>
  \<open>TypeError\<close> is the exception the helpers throw when they read a property of
  \<open>undefined\<close> or \<open>null\<close>. \<open>UnmodelledColumnId\<close> is no exception of the code: it marks
  a run of the event binner that leaves the numeric rows of this model, because the id of
  an event column is read by lodash's \<open>get\<close> as an inherited property or as a property
  path (see \<open>incrementField\<close>).
\<close>

datatype error = TypeError | UnmodelledColumnId

type_synonym row = "string \<rightharpoonup> int"

record column =
  col_id :: string
  col_name :: string
  meta_type :: "string option"

record datatable =
  columns :: "column list"
  rows :: "row list"

text \<open>
  The dimensions object is typed \<open>any\<close> in the source; the helpers read
  \<open>dimensions.x.label\<close>, \<open>dimensions.x.params.interval\<close> (turned into milliseconds by
  \<open>moment.duration(...).asMilliseconds()\<close>) and \<open>dimensions.x.params.bounds.min/max\<close>
  (turned into epoch milliseconds by \<open>new Date(...).valueOf()\<close>). The record holds the
  label and the three numbers after these library conversions.
\<close>

record dimensions =
  x_label :: string
  intervalMillis :: int
  bounds_min :: int
  bounds_max :: int

record pointInTimeEvent =
  timestamp :: int

record visLayer =
  pluginResource_id :: string
  pluginResource_name :: string
  events :: "pointInTimeEvent list"

text \<open>
  Modelled from the spec: the constant \<open>VIS_LAYER_COLUMN_TYPE\<close> is imported from the
  plugin's index module, which is not among the source files; the specification names the
  tag of an event column \<open>event-marker\<close>.
\<close>

definition VIS_LAYER_COLUMN_TYPE :: string where
  "VIS_LAYER_COLUMN_TYPE = ''event-marker''"

section \<open>Small helpers\<close>

text \<open>
  \<open>columns.filter((column) => column.name === dimensions.x.label)[0].id\<close>: element 0 of
  an empty filter result is \<open>undefined\<close>, and reading \<open>.id\<close> of it throws a TypeError.
\<close>

definition getXAxisId :: "dimensions \<Rightarrow> column list \<Rightarrow> error + string" where
  "getXAxisId dims cols =
     (case filter (\<lambda>column. col_name column = x_label dims) cols of
        [] \<Rightarrow> Inl TypeError
      | column # _ \<Rightarrow> Inr (col_id column))"

definition isVisLayerColumn :: "column \<Rightarrow> bool" where
  "isVisLayerColumn column = (meta_type column = Some VIS_LAYER_COLUMN_TYPE)"

text \<open>\<open>Array.prototype.join\<close> on an array of strings.\<close>

fun join :: "string \<Rightarrow> string list \<Rightarrow> string" where
  "join sep [] = []"
| "join sep [s] = s"
| "join sep (s # t # ss) = s @ sep @ join sep (t # ss)"

definition generateVisLayerFilterString :: "string list \<Rightarrow> string" where
  "generateVisLayerFilterString visLayerColumnIds =
     (if visLayerColumnIds \<noteq> [] then
        (let filterString =
               map (\<lambda>visLayerColumnId.
                      ''datum['' @ CHR 0x27 # visLayerColumnId @ CHR 0x27 # ''] > 0'')
                   visLayerColumnIds
         in join '' || '' filterString)
      else ''false'')"

section \<open>Extending the table to the chart bounds\<close>

text \<open>
  The three \<open>while\<close> loops of \<open>addMissingRowsToTableBounds\<close> step a time by the interval
  until it passes a chart bound. Nothing in the source bounds their iterations, so each is a
  recursion on fuel: one unit per evaluation of the loop condition, and \<open>None\<close> when the
  fuel is used up before the condition turns false. A call that is \<open>None\<close> for every
  amount of fuel does not return.
\<close>

text \<open>The object literal \<open>{ [xAxisId]: t }\<close>: a row with the axis field only.\<close>

definition axisRow :: "string \<Rightarrow> int \<Rightarrow> row" where
  "axisRow xAxisId t = [xAxisId \<mapsto> t]"

text \<open>
  \<^verbatim>\<open>while (curStartTime > chartStartTime) {
    curStartTime -= intervalMillis;
    augmentedTable.rows.unshift({ [xAxisId]: curStartTime });
  }\<close>
\<close>

fun prependLoop :: "nat \<Rightarrow> string \<Rightarrow> int \<Rightarrow> int \<Rightarrow> int \<Rightarrow> row list \<Rightarrow> row list option" where
  "prependLoop 0 xAxisId iv chartStartTime curStartTime rs = None"
| "prependLoop (Suc fuel) xAxisId iv chartStartTime curStartTime rs =
     (if curStartTime > chartStartTime then
        (let curStartTime' = curStartTime - iv
         in prependLoop fuel xAxisId iv chartStartTime curStartTime'
              (axisRow xAxisId curStartTime' # rs))
      else Some rs)"

text \<open>
  \<^verbatim>\<open>while (curEndTime < chartEndTime) {
    curEndTime += intervalMillis;
    augmentedTable.rows.push({ [xAxisId]: curEndTime });
  }\<close>
\<close>

fun appendLoop :: "nat \<Rightarrow> string \<Rightarrow> int \<Rightarrow> int \<Rightarrow> int \<Rightarrow> row list \<Rightarrow> row list option" where
  "appendLoop 0 xAxisId iv chartEndTime curEndTime rs = None"
| "appendLoop (Suc fuel) xAxisId iv chartEndTime curEndTime rs =
     (if curEndTime < chartEndTime then
        (let curEndTime' = curEndTime + iv
         in appendLoop fuel xAxisId iv chartEndTime curEndTime'
              (rs @ [axisRow xAxisId curEndTime']))
      else Some rs)"

text \<open>
  \<^verbatim>\<open>while (curTime <= chartEndTime) {
    augmentedTable.rows.push({ [xAxisId]: curTime });
    curTime += intervalMillis;
  }\<close>
\<close>

fun fillLoop :: "nat \<Rightarrow> string \<Rightarrow> int \<Rightarrow> int \<Rightarrow> int \<Rightarrow> row list \<Rightarrow> row list option" where
  "fillLoop 0 xAxisId iv chartEndTime curTime rs = None"
| "fillLoop (Suc fuel) xAxisId iv chartEndTime curTime rs =
     (if curTime \<le> chartEndTime then
        fillLoop fuel xAxisId iv chartEndTime (curTime + iv) (rs @ [axisRow xAxisId curTime])
      else Some rs)"

text \<open>
  The first and last data times are read from the rows \<open>as number\<close>. A row without the
  axis field gives \<open>undefined\<close>, for which the loop condition (\<open>undefined > n\<close>,
  \<open>undefined < n\<close>) is false: the loop body does not run.
\<close>

definition extendStart :: "nat \<Rightarrow> string \<Rightarrow> int \<Rightarrow> int \<Rightarrow> row list \<Rightarrow> row list option" where
  "extendStart fuel xAxisId iv chartStartTime rs =
     (let dataStartTime = (rs ! 0) xAxisId
      in case dataStartTime of
           None \<Rightarrow> Some rs
         | Some curStartTime \<Rightarrow> prependLoop fuel xAxisId iv chartStartTime curStartTime rs)"

definition extendEnd :: "nat \<Rightarrow> string \<Rightarrow> int \<Rightarrow> int \<Rightarrow> int option \<Rightarrow> row list \<Rightarrow> row list option" where
  "extendEnd fuel xAxisId iv chartEndTime dataEndTime rs =
     (case dataEndTime of
        None \<Rightarrow> Some rs
      | Some curEndTime \<Rightarrow> appendLoop fuel xAxisId iv chartEndTime curEndTime rs)"

text \<open>
  \<open>cloneDeep(datatable)\<close> gives the function a table of its own; in this value model the
  clone is the value itself. The result is \<open>None\<close> when a loop runs out of fuel,
  \<open>Some (Inl TypeError)\<close> when \<open>getXAxisId\<close> throws, and \<open>Some (Inr table)\<close> when the
  function returns. Both data times are read before the first loop runs.
\<close>

definition addMissingRowsToTableBounds ::
    "nat \<Rightarrow> datatable \<Rightarrow> dimensions \<Rightarrow> (error + datatable) option" where
  "addMissingRowsToTableBounds fuel datatable dims =
     (let augmentedTable = datatable;
          iv = intervalMillis dims
      in case getXAxisId dims (columns augmentedTable) of
           Inl e \<Rightarrow> Some (Inl e)
         | Inr xAxisId \<Rightarrow>
             (let chartStartTime = bounds_min dims;
                  chartEndTime = bounds_max dims
              in if rows augmentedTable \<noteq> [] then
                   (let dataEndTime =
                          (rows augmentedTable ! (length (rows augmentedTable) - 1)) xAxisId
                    in case extendStart fuel xAxisId iv chartStartTime (rows augmentedTable) of
                         None \<Rightarrow> None
                       | Some rs1 \<Rightarrow>
                           (case extendEnd fuel xAxisId iv chartEndTime dataEndTime rs1 of
                              None \<Rightarrow> None
                            | Some rs2 \<Rightarrow> Some (Inr (augmentedTable\<lparr>rows := rs2\<rparr>))))
                 else
                   (case fillLoop fuel xAxisId iv chartEndTime chartStartTime [] of
                      None \<Rightarrow> None
                    | Some rs \<Rightarrow> Some (Inr (augmentedTable\<lparr>rows := rs\<rparr>)))))"

text \<open>
  The density property of the specification, as two checks on a row list: every two
  consecutive rows have axis values that differ by exactly the interval, and the number of
  rows is \<open>floor((lastKey - firstKey) / interval) + 1\<close>.
\<close>

fun consecutiveKeysDifferBy :: "string \<Rightarrow> int \<Rightarrow> row list \<Rightarrow> bool" where
  "consecutiveKeysDifferBy xAxisId iv [] = True"
| "consecutiveKeysDifferBy xAxisId iv [r] = True"
| "consecutiveKeysDifferBy xAxisId iv (r # s # rs) =
     ((case (r xAxisId, s xAxisId) of
         (Some a, Some b) \<Rightarrow> b - a = iv
       | _ \<Rightarrow> False) \<and>
      consecutiveKeysDifferBy xAxisId iv (s # rs))"

definition rowCountMatchesKeys :: "string \<Rightarrow> int \<Rightarrow> row list \<Rightarrow> bool" where
  "rowCountMatchesKeys xAxisId iv rs =
     (case rs of
        [] \<Rightarrow> False
      | r # _ \<Rightarrow>
          (case (r xAxisId, last rs xAxisId) of
             (Some firstKey, Some lastKey) \<Rightarrow>
               int (length rs) = (lastKey - firstKey) div iv + 1
           | _ \<Rightarrow> False))"

text \<open>
  Measures for the loops, used to state how long they run: \<open>stepsToReach iv d\<close> is the
  number of steps of size \<open>iv\<close> needed to cover a distance \<open>d\<close> (the ceiling of
  \<open>d / iv\<close>, and 0 when \<open>d\<close> is not positive), and \<open>iterationBound\<close> is the largest
  number of iterations any loop of one call of \<open>addMissingRowsToTableBounds\<close> makes.
\<close>

definition stepsToReach :: "int \<Rightarrow> int \<Rightarrow> nat" where
  "stepsToReach iv d = nat ((d + iv - 1) div iv)"

definition iterationBound :: "datatable \<Rightarrow> dimensions \<Rightarrow> nat" where
  "iterationBound datatable dims =
     (case getXAxisId dims (columns datatable) of
        Inl e \<Rightarrow> 0
      | Inr xAxisId \<Rightarrow>
          if rows datatable \<noteq> [] then
            max (case (rows datatable ! 0) xAxisId of
                   None \<Rightarrow> 0
                 | Some a \<Rightarrow> stepsToReach (intervalMillis dims) (a - bounds_min dims))
                (case (rows datatable ! (length (rows datatable) - 1)) xAxisId of
                   None \<Rightarrow> 0
                 | Some b \<Rightarrow> stepsToReach (intervalMillis dims) (bounds_max dims - b))
          else nat ((bounds_max dims - bounds_min dims) div intervalMillis dims + 1))"


section \<open>The bounds extension on a store of objects\<close>

text \<open>
  Whether the caller's table is changed depends on which objects the function writes to.
  Here the same function is modelled on a store: a table object refers to its array of
  rows, and the array refers to its row objects. A reference is an index into the store,
  and allocation appends to it. The columns are only read by this function and are kept
  as a value inside the table object.
\<close>

type_synonym ref = nat

datatype obj = RowObj row | RowsObj "ref list" | TableObj "column list" ref

type_synonym store = "obj list"

definition lookup :: "store \<Rightarrow> ref \<Rightarrow> obj option" where
  "lookup h p = (if p < length h then Some (h ! p) else None)"

definition alloc :: "obj \<Rightarrow> store \<Rightarrow> ref \<times> store" where
  "alloc ob h = (length h, h @ [ob])"

definition rowAt :: "store \<Rightarrow> ref \<Rightarrow> row option" where
  "rowAt h p = (case lookup h p of Some (RowObj m) \<Rightarrow> Some m | _ \<Rightarrow> None)"

text \<open>The table value that a reference stands for, when it refers to a table.\<close>

definition readTable :: "store \<Rightarrow> ref \<Rightarrow> datatable option" where
  "readTable h p =
     (case lookup h p of
        Some (TableObj cols ra) \<Rightarrow>
          (case lookup h ra of
             Some (RowsObj rs) \<Rightarrow>
               if list_all (\<lambda>r. rowAt h r \<noteq> None) rs
               then Some \<lparr>columns = cols, rows = map (\<lambda>r. the (rowAt h r)) rs\<rparr>
               else None
           | _ \<Rightarrow> None)
      | _ \<Rightarrow> None)"

text \<open>
  \<open>cloneDeep\<close> of a table: a fresh copy of every row object, a fresh array of the
  copies and a fresh table object. It is \<open>None\<close> when the reference is not a table.
\<close>

fun cloneRows :: "row list \<Rightarrow> store \<Rightarrow> ref list \<times> store" where
  "cloneRows [] h = ([], h)"
| "cloneRows (m # ms) h =
     (case alloc (RowObj m) h of
        (r, h1) \<Rightarrow> (case cloneRows ms h1 of (rs, h2) \<Rightarrow> (r # rs, h2)))"

definition cloneDeep :: "store \<Rightarrow> ref \<Rightarrow> (ref \<times> store) option" where
  "cloneDeep h p =
     (case readTable h p of
        None \<Rightarrow> None
      | Some t \<Rightarrow>
          (case cloneRows (rows t) h of
             (rs, h1) \<Rightarrow>
               (case alloc (RowsObj rs) h1 of
                  (ra, h2) \<Rightarrow> Some (alloc (TableObj (columns t) ra) h2))))"

text \<open>\<open>rows.unshift(r)\<close> and \<open>rows.push(r)\<close> on the array object at \<open>ra\<close>.\<close>

definition unshift :: "ref \<Rightarrow> ref \<Rightarrow> store \<Rightarrow> store" where
  "unshift ra r h =
     (case lookup h ra of Some (RowsObj rs) \<Rightarrow> h[ra := RowsObj (r # rs)] | _ \<Rightarrow> h)"

definition push :: "ref \<Rightarrow> ref \<Rightarrow> store \<Rightarrow> store" where
  "push ra r h =
     (case lookup h ra of Some (RowsObj rs) \<Rightarrow> h[ra := RowsObj (rs @ [r])] | _ \<Rightarrow> h)"

fun prependLoopS :: "nat \<Rightarrow> string \<Rightarrow> int \<Rightarrow> int \<Rightarrow> int \<Rightarrow> ref \<Rightarrow> store \<Rightarrow> store option" where
  "prependLoopS 0 xAxisId iv chartStartTime curStartTime ra h = None"
| "prependLoopS (Suc fuel) xAxisId iv chartStartTime curStartTime ra h =
     (if curStartTime > chartStartTime then
        (let curStartTime' = curStartTime - iv
         in case alloc (RowObj (axisRow xAxisId curStartTime')) h of
              (r, h1) \<Rightarrow>
                prependLoopS fuel xAxisId iv chartStartTime curStartTime' ra (unshift ra r h1))
      else Some h)"

fun appendLoopS :: "nat \<Rightarrow> string \<Rightarrow> int \<Rightarrow> int \<Rightarrow> int \<Rightarrow> ref \<Rightarrow> store \<Rightarrow> store option" where
  "appendLoopS 0 xAxisId iv chartEndTime curEndTime ra h = None"
| "appendLoopS (Suc fuel) xAxisId iv chartEndTime curEndTime ra h =
     (if curEndTime < chartEndTime then
        (let curEndTime' = curEndTime + iv
         in case alloc (RowObj (axisRow xAxisId curEndTime')) h of
              (r, h1) \<Rightarrow>
                appendLoopS fuel xAxisId iv chartEndTime curEndTime' ra (push ra r h1))
      else Some h)"

fun fillLoopS :: "nat \<Rightarrow> string \<Rightarrow> int \<Rightarrow> int \<Rightarrow> int \<Rightarrow> ref \<Rightarrow> store \<Rightarrow> store option" where
  "fillLoopS 0 xAxisId iv chartEndTime curTime ra h = None"
| "fillLoopS (Suc fuel) xAxisId iv chartEndTime curTime ra h =
     (if curTime \<le> chartEndTime then
        (case alloc (RowObj (axisRow xAxisId curTime)) h of
           (r, h1) \<Rightarrow> fillLoopS fuel xAxisId iv chartEndTime (curTime + iv) ra (push ra r h1))
      else Some h)"

text \<open>
  The two extension loops, each guarded by its data time as in \<open>extendStart\<close> and
  \<open>extendEnd\<close>: an \<open>undefined\<close> data time leaves the store as it is.
\<close>

definition extendStartS ::
    "nat \<Rightarrow> string \<Rightarrow> int \<Rightarrow> int \<Rightarrow> int option \<Rightarrow> ref \<Rightarrow> store \<Rightarrow> store option" where
  "extendStartS fuel xAxisId iv chartStartTime dataStartTime ra h =
     (case dataStartTime of
        None \<Rightarrow> Some h
      | Some curStartTime \<Rightarrow> prependLoopS fuel xAxisId iv chartStartTime curStartTime ra h)"

definition extendEndS ::
    "nat \<Rightarrow> string \<Rightarrow> int \<Rightarrow> int \<Rightarrow> int option \<Rightarrow> ref \<Rightarrow> store \<Rightarrow> store option" where
  "extendEndS fuel xAxisId iv chartEndTime dataEndTime ra h =
     (case dataEndTime of
        None \<Rightarrow> Some h
      | Some curEndTime \<Rightarrow> appendLoopS fuel xAxisId iv chartEndTime curEndTime ra h)"

text \<open>
  The function on the store. It returns the reference of the augmented table and the
  store after the call. A \<open>datatable\<close> reference that is not a table has no
  \<open>columns\<close> to filter, which is a TypeError as well.
\<close>

definition addMissingRowsToTableBoundsS ::
    "nat \<Rightarrow> store \<Rightarrow> ref \<Rightarrow> dimensions \<Rightarrow> (error + ref \<times> store) option" where
  "addMissingRowsToTableBoundsS fuel h datatable dims =
     (case cloneDeep h datatable of
        None \<Rightarrow> Some (Inl TypeError)
      | Some (augmentedTable, h1) \<Rightarrow>
          (case lookup h1 augmentedTable of
             Some (TableObj cols ra) \<Rightarrow>
               (let iv = intervalMillis dims
                in case getXAxisId dims cols of
                     Inl e \<Rightarrow> Some (Inl e)
                   | Inr xAxisId \<Rightarrow>
                       (let chartStartTime = bounds_min dims;
                            chartEndTime = bounds_max dims
                        in case lookup h1 ra of
                             Some (RowsObj rs) \<Rightarrow>
                               if rs \<noteq> [] then
                                 (let dataStartTime =
                                        Option.bind (rowAt h1 (rs ! 0)) (\<lambda>m. m xAxisId);
                                      dataEndTime =
                                        Option.bind (rowAt h1 (rs ! (length rs - 1)))
                                          (\<lambda>m. m xAxisId)
                                  in case extendStartS fuel xAxisId iv chartStartTime
                                            dataStartTime ra h1 of
                                       None \<Rightarrow> None
                                     | Some h2 \<Rightarrow>
                                         (case extendEndS fuel xAxisId iv chartEndTime
                                                 dataEndTime ra h2 of
                                            None \<Rightarrow> None
                                          | Some h3 \<Rightarrow> Some (Inr (augmentedTable, h3))))
                               else
                                 (case fillLoopS fuel xAxisId iv chartEndTime chartStartTime
                                         ra h1 of
                                    None \<Rightarrow> None
                                  | Some h2 \<Rightarrow> Some (Inr (augmentedTable, h2)))
                           | _ \<Rightarrow> Some (Inl TypeError)))
           | _ \<Rightarrow> Some (Inl TypeError)))"

section \<open>Binning events into rows\<close>

text \<open>
  Comparisons and \<open>Math.abs\<close> on values that may be \<open>undefined\<close>: a comparison with
  \<open>undefined\<close> (which converts to NaN) is false.
\<close>

fun js_le :: "int option \<Rightarrow> int option \<Rightarrow> bool" where
  "js_le (Some a) (Some b) = (a \<le> b)"
| "js_le _ _ = False"

definition js_absdiff :: "int \<Rightarrow> int option \<Rightarrow> int option" where
  "js_absdiff t v = map_option (\<lambda>w. \<bar>t - w\<bar>) v"

text \<open>
  The \<open>while (rowIndex < augmentedTable.rows.length - 1)\<close> loop run for one timestamp.
  It returns the cursor as the loop leaves it and \<open>rowIndexToInsert\<close>: \<open>Some r\<close> when the
  loop reaches the insertion and \<open>break\<close>, \<open>None\<close> when the loop condition fails first.
  The insertion itself is done by \<open>binTimestamp\<close> below.
\<close>

function findRowIndexToInsert :: "string \<Rightarrow> row list \<Rightarrow> int \<Rightarrow> nat \<Rightarrow> nat \<times> nat option" where
  "findRowIndexToInsert xAxisId rs t rowIndex =
     (if rowIndex < length rs - 1 then
        (let smallerVal = (rs ! rowIndex) xAxisId;
             higherVal = (rs ! (rowIndex + 1)) xAxisId
         in if js_le (Some t) smallerVal then (rowIndex, Some rowIndex)
            else if js_le (Some t) higherVal then
              (let smallerValDiff = js_absdiff t smallerVal;
                   higherValDiff = js_absdiff t higherVal
               in (rowIndex, Some (if js_le smallerValDiff higherValDiff then rowIndex
                                   else rowIndex + 1)))
            else if rowIndex + 1 = length rs - 1 then (rowIndex, Some (rowIndex + 1))
            else findRowIndexToInsert xAxisId rs t (rowIndex + 1))
      else (rowIndex, None))"
  by pat_completeness auto
termination
  by (relation "measure (\<lambda>(xAxisId, rs, t, rowIndex). length rs - 1 - rowIndex)") auto

text \<open>
  \<open>rows[r][id] = get(rows[r], id, 0) + 1\<close>. The index is in range whenever the loop
  produces one, so the out-of-range case of the list update is never taken.

  Lodash is not among the source files; its \<open>get(object, path, defaultValue)\<close> is
  modelled from the library's documented behaviour. It reads \<open>object[id]\<close> when the id
  is a field of the object, own or inherited, or contains no \<open>.\<close> and no bracket group,
  and it walks the id as a property path otherwise; the default value \<open>0\<close> is returned
  when the value read is \<open>undefined\<close>. A row is a plain object, so that it inherits the
  properties of \<open>Object.prototype\<close>, listed in \<open>objectPrototypeNames\<close>. Hence:
  \<^item> when the id is an own field of the row, \<open>get\<close> gives the field's number and the
    assignment stores that number plus one;
  \<^item> when it is not, and the id contains no \<open>.\<close> and no \<open>[\<close> and is no property of
    \<open>Object.prototype\<close> (\<open>plainColumnId\<close>), \<open>get\<close> gives the default \<open>0\<close> and the
    assignment stores \<open>1\<close>;
  \<^item> in every other case \<open>get\<close> reads an inherited property (a function, or the
    prototype object for \<open>__proto__\<close>) or follows a path through the row's values, and
    what the assignment stores need not be a number: for \<open>constructor\<close> it is a string.
    These reads are not modelled. The result is then \<open>Inl UnmodelledColumnId\<close>, so that
    no theorem speaks about such a run.
\<close>

definition objectPrototypeNames :: "string list" where
  "objectPrototypeNames =
     [''constructor'', ''__defineGetter__'', ''__defineSetter__'', ''hasOwnProperty'',
      ''__lookupGetter__'', ''__lookupSetter__'', ''isPrototypeOf'', ''propertyIsEnumerable'',
      ''toString'', ''valueOf'', ''__proto__'', ''toLocaleString'']"

definition plainColumnId :: "string \<Rightarrow> bool" where
  "plainColumnId visLayerColumnId =
     (CHR ''.'' \<notin> set visLayerColumnId \<and> CHR ''['' \<notin> set visLayerColumnId \<and>
      visLayerColumnId \<notin> set objectPrototypeNames)"

definition incrementField :: "string \<Rightarrow> row \<Rightarrow> error + row" where
  "incrementField visLayerColumnId r =
     (case r visLayerColumnId of
        Some v \<Rightarrow> Inr (r(visLayerColumnId \<mapsto> v + 1))
      | None \<Rightarrow>
          if plainColumnId visLayerColumnId then Inr (r(visLayerColumnId \<mapsto> 0 + 1))
          else Inl UnmodelledColumnId)"

text \<open>
  The body of \<open>sortedTimestamps.forEach\<close>; the state is the cursor and the rows. When the
  \<open>while\<close> loop ends without a row, nothing is written.
\<close>

definition binTimestamp ::
    "string \<Rightarrow> string \<Rightarrow> int \<Rightarrow> nat \<times> row list \<Rightarrow> error + nat \<times> row list" where
  "binTimestamp xAxisId visLayerColumnId t st =
     (case st of (rowIndex, rs) \<Rightarrow>
        (case findRowIndexToInsert xAxisId rs t rowIndex of
           (rowIndex', None) \<Rightarrow> Inr (rowIndex', rs)
         | (rowIndex', Some rowIndexToInsert) \<Rightarrow>
             (case incrementField visLayerColumnId (rs ! rowIndexToInsert) of
                Inl e \<Rightarrow> Inl e
              | Inr r \<Rightarrow> Inr (rowIndex', rs[rowIndexToInsert := r]))))"

text \<open>
  \<open>Array.prototype.forEach\<close> with a callback that changes state: the callback runs on the
  elements in order.
\<close>

fun forEach :: "('a \<Rightarrow> 's \<Rightarrow> error + 's) \<Rightarrow> 'a list \<Rightarrow> 's \<Rightarrow> error + 's" where
  "forEach f [] s = Inr s"
| "forEach f (a # as) s = (case f a s of Inl e \<Rightarrow> Inl e | Inr s' \<Rightarrow> forEach f as s')"

text \<open>
  The callback given to \<open>visLayers.every\<close>: it returns the callback's boolean and the
  table as the callback leaves it. The timestamps are sorted numerically ascending.
  \<open>visLayerColumn\<close> is the column descriptor the callback pushes,
  \<open>{ id, name, meta: { type: VIS_LAYER_COLUMN_TYPE } }\<close>. The one-row case builds the
  row with an object literal, \<open>{ ...rows[0], [id]: events.length }\<close>, which defines an own
  field whatever the id is.
\<close>

definition visLayerColumn :: "string \<Rightarrow> string \<Rightarrow> column" where
  "visLayerColumn visLayerColumnId visLayerColumnName =
     \<lparr>col_id = visLayerColumnId, col_name = visLayerColumnName,
      meta_type = Some VIS_LAYER_COLUMN_TYPE\<rparr>"

definition processVisLayer ::
    "string \<Rightarrow> visLayer \<Rightarrow> datatable \<Rightarrow> error + bool \<times> datatable" where
  "processVisLayer xAxisId layer augmentedTable =
     (let visLayerColumnId = pluginResource_id layer;
          visLayerColumnName = pluginResource_name layer;
          tbl = augmentedTable\<lparr>columns := columns augmentedTable @
                  [visLayerColumn visLayerColumnId visLayerColumnName]\<rparr>
      in if length (rows tbl) = 0 then Inr (False, tbl)
         else if length (rows tbl) = 1 then
           Inr (False, tbl\<lparr>rows := (rows tbl)[0 :=
                         (rows tbl ! 0)(visLayerColumnId \<mapsto> int (length (events layer)))]\<rparr>)
         else
           (let sortedTimestamps = sort (map timestamp (events layer))
            in if length sortedTimestamps > 0 then
                 (case forEach (binTimestamp xAxisId visLayerColumnId)
                         sortedTimestamps (0, rows tbl) of
                    Inl e \<Rightarrow> Inl e
                  | Inr st \<Rightarrow> Inr (True, tbl\<lparr>rows := snd st\<rparr>))
               else Inr (True, tbl)))"

text \<open>
  \<open>Array.prototype.every\<close> with a callback that changes state: the callback runs on the
  elements in order, and the iteration stops after the first call that returns false.
\<close>

fun every :: "('a \<Rightarrow> 's \<Rightarrow> error + bool \<times> 's) \<Rightarrow> 'a list \<Rightarrow> 's \<Rightarrow> error + 's" where
  "every f [] s = Inr s"
| "every f (a # as) s =
     (case f a s of
        Inl e \<Rightarrow> Inl e
      | Inr (b, s') \<Rightarrow> if b then every f as s' else Inr s')"

text \<open>
  The exported function. The result is \<open>None\<close> when a loop of the bounds extension
  runs out of fuel, \<open>Some (Inl TypeError)\<close> when \<open>getXAxisId\<close> throws, and
  \<open>Some (Inr table)\<close> when the function returns the table;
  \<open>Some (Inl UnmodelledColumnId)\<close> marks a run with a column id whose reads are not
  modelled.
\<close>

definition addPointInTimeEventsLayersToTable ::
    "nat \<Rightarrow> datatable \<Rightarrow> dimensions \<Rightarrow> visLayer list \<Rightarrow> (error + datatable) option" where
  "addPointInTimeEventsLayersToTable fuel datatable dims visLayers =
     (case addMissingRowsToTableBounds fuel datatable dims of
        None \<Rightarrow> None
      | Some (Inl e) \<Rightarrow> Some (Inl e)
      | Some (Inr augmentedTable) \<Rightarrow>
          (case getXAxisId dims (columns augmentedTable) of
             Inl e \<Rightarrow> Some (Inl e)
           | Inr xAxisId \<Rightarrow>
               Some (if visLayers \<noteq> [] then
                       every (processVisLayer xAxisId) visLayers augmentedTable
                     else Inr augmentedTable)))"

text \<open>The sum of a column's values over the rows; a row without the field counts 0.\<close>

definition columnSum :: "string \<Rightarrow> row list \<Rightarrow> int" where
  "columnSum c rs = sum_list (map (\<lambda>r. case r c of None \<Rightarrow> 0 | Some v \<Rightarrow> v) rs)"


definition isNearestRow :: "string \<Rightarrow> row list \<Rightarrow> int \<Rightarrow> nat \<Rightarrow> bool" where
  "isNearestRow xAxisId rs t r =
     (r < length rs \<and>
      (case (rs ! r) xAxisId of
         None \<Rightarrow> False
       | Some k \<Rightarrow>
           list_all (\<lambda>r'. case r' xAxisId of
                             None \<Rightarrow> False
                           | Some k' \<Rightarrow> \<bar>t - k\<bar> < \<bar>t - k'\<bar> \<or> (\<bar>t - k\<bar> = \<bar>t - k'\<bar> \<and> k \<le> k'))
                    rs))"

section \<open>Augmenting the chart specification\<close>

text \<open>
  The Vega-Lite specification is a JSON value. It is modelled as a tree: an object is a
  map from property names to values (the order of properties is not modelled), and no
  object is shared between two places of the specification.
\<close>

datatype json =
    JNull
  | JBool bool
  | JNum int
  | JStr string
  | JArr "json list"
  | JObj "string \<rightharpoonup> json"

definition EVENT_MARK_SIZE :: int where "EVENT_MARK_SIZE = 100"
definition EVENT_MARK_SIZE_ENLARGED :: int where "EVENT_MARK_SIZE_ENLARGED = 140"
definition EVENT_MARK_SHAPE :: string where "EVENT_MARK_SHAPE = ''triangle-up''"
definition EVENT_TIMELINE_HEIGHT :: int where "EVENT_TIMELINE_HEIGHT = 25"

text \<open>An object literal with the given properties.\<close>

definition obj :: "(string \<times> json) list \<Rightarrow> json" where
  "obj kvs = JObj (map_of kvs)"

text \<open>
  Reading one of the named properties used here (\<open>kibana\<close>, \<open>encoding\<close>, \<open>x\<close>,
  \<open>axis\<close>) from a value that is neither \<open>null\<close> nor \<open>undefined\<close>: only an object
  can have it; a primitive or an array gives \<open>undefined\<close>.
\<close>

definition getProp :: "json \<Rightarrow> string \<Rightarrow> json option" where
  "getProp v k = (case v of JObj m \<Rightarrow> m k | _ \<Rightarrow> None)"

text \<open>
  The own enumerable properties that an object spread \<open>{...v}\<close> copies: those of an
  object; the elements of an array and the characters of a string under their decimal
  indices; none for \<open>undefined\<close>, \<open>null\<close>, a boolean or a number.
\<close>

function decimal :: "nat \<Rightarrow> string" where
  "decimal n =
     (if n < 10 then [char_of (48 + n)]
      else decimal (n div 10) @ [char_of (48 + n mod 10)])"
  by pat_completeness auto
termination
  by (relation "measure (\<lambda>n. n)") auto

declare decimal.simps [simp del]

definition indexed :: "json list \<Rightarrow> string \<rightharpoonup> json" where
  "indexed xs = map_of (zip (map decimal [0..<length xs]) xs)"

definition spreadProps :: "json option \<Rightarrow> string \<rightharpoonup> json" where
  "spreadProps v =
     (case v of
        Some (JObj m) \<Rightarrow> m
      | Some (JArr xs) \<Rightarrow> indexed xs
      | Some (JStr cs) \<Rightarrow> indexed (map (\<lambda>c. JStr [c]) cs)
      | _ \<Rightarrow> Map.empty)"

text \<open>
  \<open>{ ...config, kibana: { ...config.kibana, showEvents: true } }\<close>. Reading
  \<open>config.kibana\<close> throws a TypeError when \<open>config\<close> is \<open>undefined\<close> or \<open>null\<close>.
\<close>

definition enableEventsInConfig :: "json option \<Rightarrow> error + json" where
  "enableEventsInConfig config =
     (case config of
        None \<Rightarrow> Inl TypeError
      | Some JNull \<Rightarrow> Inl TypeError
      | Some c \<Rightarrow>
          Inr (JObj ((spreadProps (Some c))
                 (''kibana'' \<mapsto>
                    JObj ((spreadProps (getProp c ''kibana''))(''showEvents'' \<mapsto> JBool True))))))"

text \<open>
  The callback of \<open>newSpec.layer.forEach\<close>. Lodash's
  \<open>get(dataSeries, 'encoding.x.axis', null)\<close> gives \<open>null\<close> when the path does not
  resolve; when it resolves to something else, the axis is replaced by
  \<open>{ ...axis, labels: false, title: null }\<close>.
\<close>

definition hideXAxis :: "json \<Rightarrow> json" where
  "hideXAxis dataSeries =
     (case dataSeries of
        JObj ds \<Rightarrow>
          (case ds ''encoding'' of
             Some (JObj encoding) \<Rightarrow>
               (case encoding ''x'' of
                  Some (JObj x) \<Rightarrow>
                    (case x ''axis'' of
                       None \<Rightarrow> dataSeries
                     | Some JNull \<Rightarrow> dataSeries
                     | Some axis \<Rightarrow>
                         JObj (ds(''encoding'' \<mapsto>
                           JObj (encoding(''x'' \<mapsto>
                             JObj (x(''axis'' \<mapsto>
                               JObj ((spreadProps (Some axis))
                                      (''labels'' \<mapsto> JBool False, ''title'' \<mapsto> JNull)))))))))
                | _ \<Rightarrow> dataSeries)
           | _ \<Rightarrow> dataSeries)
      | _ \<Rightarrow> dataSeries)"

text \<open>
  \<open>addPointInTimeEventsLayersToSpec\<close>. Two things it uses are not in the source files
  and are parameters here: the constant \<open>EVENT_COLOR\<close> (imported from the plugin's index
  module) and \<open>convertToDateTimeObj\<close>, which goes through the \<open>moment\<close> library and the
  local time zone. The statements throw a TypeError in this order: reading
  \<open>config.kibana\<close> of a missing config, \<open>getXAxisId\<close>, reading \<open>datatable.rows[0]\<close>
  of an empty table, and calling \<open>forEach\<close> on a \<open>layer\<close> that is not an array.
\<close>

definition addPointInTimeEventsLayersToSpec ::
    "string \<Rightarrow> (int option \<Rightarrow> json) \<Rightarrow> datatable \<Rightarrow> dimensions \<Rightarrow> (string \<rightharpoonup> json) \<Rightarrow>
     error + (string \<rightharpoonup> json)" where
  "addPointInTimeEventsLayersToSpec EVENT_COLOR convertToDateTimeObj datatable dims spec =
     (case enableEventsInConfig (spec ''config'') of
        Inl e \<Rightarrow> Inl e
      | Inr config \<Rightarrow>
     (let newSpec = spec(''config'' \<mapsto> config)
      in case getXAxisId dims (columns datatable) of
        Inl e \<Rightarrow> Inl e
      | Inr xAxisId \<Rightarrow>
     (let xAxisTitle = filter (\<lambda>c. c \<noteq> CHR 0x22) (x_label dims)
      in if rows datatable = [] then Inl TypeError
      else
     (let bucketStartTime = convertToDateTimeObj ((rows datatable ! 0) xAxisId);
          bucketEndTime =
            convertToDateTimeObj ((rows datatable ! (length (rows datatable) - 1)) xAxisId);
          visLayerColumns = filter isVisLayerColumn (columns datatable);
          visLayerColumnIds = map col_id visLayerColumns;
          hoverParamName = ''hover''
      in case newSpec ''layer'' of
        Some (JArr layer) \<Rightarrow>
          (let layer1 = map hideXAxis layer;
               layer2 = layer1 @
                 [obj [(''mark'', obj [(''type'', JStr ''rule''), (''color'', JStr EVENT_COLOR),
                                       (''opacity'', JNum 1)]),
                       (''transform'',
                          JArr [obj [(''filter'',
                                      JStr (generateVisLayerFilterString visLayerColumnIds))]]),
                       (''encoding'',
                          obj [(''x'', obj [(''field'', JStr xAxisId),
                                            (''type'', JStr ''temporal'')]),
                               (''opacity'',
                                  obj [(''value'', JNum 0),
                                       (''condition'',
                                          obj [(''empty'', JBool False),
                                               (''param'', JStr hoverParamName),
                                               (''value'', JNum 1)])])])]];
               timeline =
                 obj [(''height'', JNum EVENT_TIMELINE_HEIGHT),
                      (''mark'', obj [(''type'', JStr ''point''),
                                      (''shape'', JStr EVENT_MARK_SHAPE),
                                      (''color'', JStr EVENT_COLOR),
                                      (''filled'', JBool True),
                                      (''opacity'', JNum 1)]),
                      (''transform'',
                         JArr [obj [(''filter'',
                                     JStr (generateVisLayerFilterString visLayerColumnIds))]]),
                      (''params'',
                         JArr [obj [(''name'', JStr hoverParamName),
                                    (''select'', obj [(''type'', JStr ''point''),
                                                      (''on'', JStr ''mouseover'')])]]),
                      (''encoding'',
                         obj [(''x'',
                                 obj [(''axis'', obj [(''title'', JStr xAxisTitle),
                                                      (''grid'', JBool False),
                                                      (''ticks'', JBool True),
                                                      (''orient'', JStr ''bottom''),
                                                      (''domain'', JBool True)]),
                                      (''field'', JStr xAxisId),
                                      (''type'', JStr ''temporal''),
                                      (''scale'',
                                         obj [(''domain'',
                                               JArr [bucketStartTime, bucketEndTime])])]),
                              (''size'',
                                 obj [(''condition'',
                                         obj [(''empty'', JBool False),
                                              (''param'', JStr hoverParamName),
                                              (''value'', JNum EVENT_MARK_SIZE_ENLARGED)]),
                                      (''value'', JNum EVENT_MARK_SIZE)])])]
           in Inr ((newSpec(''layer'' := None))
                     (''vconcat'' \<mapsto> JArr [obj [(''layer'', JArr layer2)], timeline])))
      | _ \<Rightarrow> Inl TypeError))))"

section \<open>Filter expression\<close>

lemma join_Cons:
  "join sep (s # ss) = s @ concat (map (\<lambda>t. sep @ t) ss)"
  by (induction ss arbitrary: s) simp_all

text \<open>
  C8. With no column id the filter expression is the literal \<open>false\<close>. With at least one
  id it is the predicate \<open>datum['<id>'] > 0\<close> of the first id, followed, for every further
  id in input order, by the separator \<open> || \<close> and that id's predicate.
\<close>

theorem generateVisLayerFilterString_format:
  "generateVisLayerFilterString [] = ''false'' \<and>
   generateVisLayerFilterString (i # ids) =
     (''datum['' @ [CHR 0x27] @ i @ [CHR 0x27] @ ''] > 0'') @
     concat (map (\<lambda>j. '' || '' @ (''datum['' @ [CHR 0x27] @ j @ [CHR 0x27] @ ''] > 0'')) ids)"
  by (simp add: generateVisLayerFilterString_def join_Cons o_def)

section \<open>The loops of the bounds extension\<close>

lemma upt_0_Suc_map: "map f [0..<Suc n] = f 0 # map (\<lambda>k. f (Suc k)) [0..<n]"
  by (simp only: upt_conv_Cons[of 0 "Suc n"] map_Suc_upt[symmetric]) (simp add: o_def)

lemma fillLoop_mono:
  "fillLoop fuel x iv e cur rs = Some out \<Longrightarrow> fuel \<le> fuel' \<Longrightarrow> fillLoop fuel' x iv e cur rs = Some out"
proof (induction fuel arbitrary: fuel' cur rs)
  case 0
  then show ?case by simp
next
  case (Suc fuel)
  then obtain g where g: "fuel' = Suc g" "fuel \<le> g" by (cases fuel') auto
  with Suc show ?case by (auto split: if_splits)
qed

lemma fillLoop_result:
  "0 < iv \<Longrightarrow> nat ((e - cur) div iv + 1) < fuel \<Longrightarrow>
   fillLoop fuel x iv e cur rs =
     Some (rs @ map (\<lambda>k. axisRow x (cur + int k * iv)) [0..<nat ((e - cur) div iv + 1)])"
proof (induction fuel arbitrary: cur rs)
  case 0
  then show ?case by simp
next
  case (Suc fuel)
  show ?case
  proof (cases "cur \<le> e")
    case True
    have "(e - (cur + iv) + iv * 1) div iv = 1 + (e - (cur + iv)) div iv"
      using Suc.prems(1) by (subst div_mult_self2) simp_all
    then have d: "(e - (cur + iv)) div iv + 1 = (e - cur) div iv"
      by simp
    have nn: "0 \<le> (e - cur) div iv" using True Suc.prems(1) by (simp add: pos_imp_zdiv_nonneg_iff)
    then obtain m where m: "nat ((e - cur) div iv + 1) = Suc m" "m = nat ((e - cur) div iv)"
      by (simp add: nat_add_distrib)
    have "fillLoop fuel x iv e (cur + iv) (rs @ [axisRow x cur]) =
          Some ((rs @ [axisRow x cur]) @ map (\<lambda>k. axisRow x (cur + iv + int k * iv)) [0..<m])"
      using Suc.IH[of "cur + iv" "rs @ [axisRow x cur]"] Suc.prems m d by simp
    then show ?thesis using True m
      by (simp add: upt_0_Suc_map algebra_simps del: upt_Suc)
  next
    case False
    then have "(e - cur) div iv < 0" using Suc.prems(1) by (simp add: div_neg_pos_less0)
    then show ?thesis using False by simp
  qed
qed

lemma prependLoop_mono:
  "prependLoop fuel x iv cs cur rs = Some out \<Longrightarrow> fuel \<le> fuel' \<Longrightarrow>
   prependLoop fuel' x iv cs cur rs = Some out"
proof (induction fuel arbitrary: fuel' cur rs)
  case 0
  then show ?case by simp
next
  case (Suc fuel)
  then obtain g where g: "fuel' = Suc g" "fuel \<le> g" by (cases fuel') auto
  with Suc show ?case by (auto simp: Let_def split: if_splits)
qed

lemma appendLoop_mono:
  "appendLoop fuel x iv ce cur rs = Some out \<Longrightarrow> fuel \<le> fuel' \<Longrightarrow>
   appendLoop fuel' x iv ce cur rs = Some out"
proof (induction fuel arbitrary: fuel' cur rs)
  case 0
  then show ?case by simp
next
  case (Suc fuel)
  then obtain g where g: "fuel' = Suc g" "fuel \<le> g" by (cases fuel') auto
  with Suc show ?case by (auto simp: Let_def split: if_splits)
qed

lemma stepsToReach_nonpos: "0 < iv \<Longrightarrow> d \<le> 0 \<Longrightarrow> stepsToReach iv d = 0"
proof -
  assume a: "0 < iv" "d \<le> 0"
  have "(d + iv - 1) div iv \<le> 0"
  proof (cases "d + iv - 1 < 0")
    case True
    then show ?thesis using a by (simp add: div_neg_pos_less0 less_imp_le)
  next
    case False
    then have "(d + iv - 1) div iv = 0" using a by simp
    then show ?thesis by simp
  qed
  then show ?thesis by (simp add: stepsToReach_def)
qed

lemma stepsToReach_pos: "0 < iv \<Longrightarrow> 0 < d \<Longrightarrow> stepsToReach iv d = Suc (stepsToReach iv (d - iv))"
proof -
  assume a: "0 < iv" "0 < d"
  have "(d - iv + iv - 1 + iv * 1) div iv = 1 + (d - iv + iv - 1) div iv"
    using a by (subst div_mult_self2) simp_all
  then have e: "(d + iv - 1) div iv = 1 + (d - 1) div iv" by (simp add: algebra_simps)
  have "0 \<le> (d - 1) div iv" using a by (simp add: pos_imp_zdiv_nonneg_iff)
  then show ?thesis using e by (simp add: stepsToReach_def nat_add_distrib)
qed

lemma prependLoop_result:
  "0 < iv \<Longrightarrow> stepsToReach iv (cur - cs) < fuel \<Longrightarrow>
   prependLoop fuel x iv cs cur rs =
     Some (rev (map (\<lambda>k. axisRow x (cur - int (Suc k) * iv)) [0..<stepsToReach iv (cur - cs)]) @ rs)"
proof (induction fuel arbitrary: cur rs)
  case 0
  then show ?case by simp
next
  case (Suc fuel)
  show ?case
  proof (cases "cs < cur")
    case True
    then have s: "stepsToReach iv (cur - cs) = Suc (stepsToReach iv (cur - iv - cs))"
      using stepsToReach_pos[of iv "cur - cs"] Suc.prems(1) by (simp add: algebra_simps)
    have "prependLoop fuel x iv cs (cur - iv) (axisRow x (cur - iv) # rs) =
          Some (rev (map (\<lambda>k. axisRow x (cur - iv - int (Suc k) * iv))
                      [0..<stepsToReach iv (cur - iv - cs)]) @ axisRow x (cur - iv) # rs)"
      using Suc.IH[of "cur - iv" "axisRow x (cur - iv) # rs"] Suc.prems s by simp
    then show ?thesis using True s
      by (simp add: upt_0_Suc_map algebra_simps Let_def del: upt_Suc)
  next
    case False
    then show ?thesis using stepsToReach_nonpos[of iv "cur - cs"] Suc.prems(1) by simp
  qed
qed

lemma appendLoop_result:
  "0 < iv \<Longrightarrow> stepsToReach iv (ce - cur) < fuel \<Longrightarrow>
   appendLoop fuel x iv ce cur rs =
     Some (rs @ map (\<lambda>k. axisRow x (cur + int (Suc k) * iv)) [0..<stepsToReach iv (ce - cur)])"
proof (induction fuel arbitrary: cur rs)
  case 0
  then show ?case by simp
next
  case (Suc fuel)
  show ?case
  proof (cases "cur < ce")
    case True
    then have s: "stepsToReach iv (ce - cur) = Suc (stepsToReach iv (ce - (cur + iv)))"
      using stepsToReach_pos[of iv "ce - cur"] Suc.prems(1) by (simp add: algebra_simps)
    have "appendLoop fuel x iv ce (cur + iv) (rs @ [axisRow x (cur + iv)]) =
          Some ((rs @ [axisRow x (cur + iv)]) @ map (\<lambda>k. axisRow x (cur + iv + int (Suc k) * iv))
                      [0..<stepsToReach iv (ce - (cur + iv))])"
      using Suc.IH[of "cur + iv" "rs @ [axisRow x (cur + iv)]"] Suc.prems s by simp
    then show ?thesis using True s
      by (simp add: upt_0_Suc_map algebra_simps Let_def del: upt_Suc)
  next
    case False
    then show ?thesis using stepsToReach_nonpos[of iv "ce - cur"] Suc.prems(1) by simp
  qed
qed




lemma prependLoop_frame:
  "prependLoop fuel x iv cs cur rs = Some out \<Longrightarrow>
   \<exists>pre. out = pre @ rs \<and> (\<forall>r\<in>set pre. \<exists>t. r = axisRow x t)"
proof (induction fuel arbitrary: cur rs)
  case 0
  then show ?case by simp
next
  case (Suc fuel)
  show ?case
  proof (cases "cs < cur")
    case True
    with Suc.prems have "prependLoop fuel x iv cs (cur - iv) (axisRow x (cur - iv) # rs) = Some out"
      by (simp add: Let_def)
    from Suc.IH[OF this] obtain pre where
      "out = pre @ axisRow x (cur - iv) # rs" "\<forall>r\<in>set pre. \<exists>t. r = axisRow x t" by blast
    then have "out = (pre @ [axisRow x (cur - iv)]) @ rs \<and>
               (\<forall>r\<in>set (pre @ [axisRow x (cur - iv)]). \<exists>t. r = axisRow x t)" by auto
    then show ?thesis by blast
  next
    case False
    with Suc.prems have "out = [] @ rs" by simp
    then show ?thesis by fastforce
  qed
qed

lemma appendLoop_frame:
  "appendLoop fuel x iv ce cur rs = Some out \<Longrightarrow>
   \<exists>post. out = rs @ post \<and> (\<forall>r\<in>set post. \<exists>t. r = axisRow x t)"
proof (induction fuel arbitrary: cur rs)
  case 0
  then show ?case by simp
next
  case (Suc fuel)
  show ?case
  proof (cases "cur < ce")
    case True
    with Suc.prems have "appendLoop fuel x iv ce (cur + iv) (rs @ [axisRow x (cur + iv)]) = Some out"
      by (simp add: Let_def)
    from Suc.IH[OF this] obtain post where
      "out = (rs @ [axisRow x (cur + iv)]) @ post" "\<forall>r\<in>set post. \<exists>t. r = axisRow x t" by blast
    then have "out = rs @ (axisRow x (cur + iv) # post) \<and>
               (\<forall>r\<in>set (axisRow x (cur + iv) # post). \<exists>t. r = axisRow x t)" by auto
    then show ?thesis by blast
  next
    case False
    with Suc.prems have "out = rs @ []" by simp
    then show ?thesis by fastforce
  qed
qed

lemma fillLoop_frame:
  "fillLoop fuel x iv ce cur rs = Some out \<Longrightarrow>
   \<exists>post. out = rs @ post \<and> (\<forall>r\<in>set post. \<exists>t. r = axisRow x t)"
proof (induction fuel arbitrary: cur rs)
  case 0
  then show ?case by simp
next
  case (Suc fuel)
  show ?case
  proof (cases "cur \<le> ce")
    case True
    with Suc.prems have "fillLoop fuel x iv ce (cur + iv) (rs @ [axisRow x cur]) = Some out"
      by simp
    from Suc.IH[OF this] obtain post where
      "out = (rs @ [axisRow x cur]) @ post" "\<forall>r\<in>set post. \<exists>t. r = axisRow x t" by blast
    then have "out = rs @ (axisRow x cur # post) \<and>
               (\<forall>r\<in>set (axisRow x cur # post). \<exists>t. r = axisRow x t)" by auto
    then show ?thesis by blast
  next
    case False
    with Suc.prems have "out = rs @ []" by simp
    then show ?thesis by fastforce
  qed
qed

section \<open>Results of the bounds extension\<close>

lemma progression_keys:
  fixes iv :: int
  assumes "0 < iv"
  shows "(\<exists>k < nat ((hi - lo) div iv + 1). t = lo + int k * iv) \<longleftrightarrow>
         (lo \<le> t \<and> t \<le> hi \<and> iv dvd (t - lo))"
proof
  assume "\<exists>k < nat ((hi - lo) div iv + 1). t = lo + int k * iv"
  then obtain k where k: "k < nat ((hi - lo) div iv + 1)" "t = lo + int k * iv" by blast
  then have "int k \<le> (hi - lo) div iv" by linarith
  then have "int k * iv \<le> ((hi - lo) div iv) * iv" using assms by (simp add: mult_right_mono)
  also have "\<dots> \<le> hi - lo" using assms
    by (metis mult.commute pos_mod_sign mult_div_mod_eq le_add_same_cancel1)
  finally show "lo \<le> t \<and> t \<le> hi \<and> iv dvd (t - lo)" using k assms by simp
next
  assume a: "lo \<le> t \<and> t \<le> hi \<and> iv dvd (t - lo)"
  then obtain q where q: "t - lo = iv * q" by (auto simp: dvd_def)
  have q0: "0 \<le> q" using a q assms by (metis diff_ge_0_iff_ge zero_le_mult_iff not_less)
  have "q = (t - lo) div iv" using q assms by simp
  also have "\<dots> \<le> (hi - lo) div iv" using a assms by (simp add: zdiv_mono1)
  finally have "nat q < nat ((hi - lo) div iv + 1)" using q0 by linarith
  moreover have "t = lo + int (nat q) * iv" using q q0 by (simp add: algebra_simps)
  ultimately show "\<exists>k < nat ((hi - lo) div iv + 1). t = lo + int k * iv" by blast
qed

lemma addMissing_empty:
  assumes "rows dt = []" "0 < intervalMillis dims" "getXAxisId dims (columns dt) = Inr x"
    and "nat ((bounds_max dims - bounds_min dims) div intervalMillis dims + 1) < fuel"
  shows "addMissingRowsToTableBounds fuel dt dims =
     Some (Inr (dt\<lparr>rows := map (\<lambda>k. axisRow x (bounds_min dims + int k * intervalMillis dims))
                   [0..<nat ((bounds_max dims - bounds_min dims) div intervalMillis dims + 1)]\<rparr>))"
  using assms fillLoop_result[of "intervalMillis dims" "bounds_max dims" "bounds_min dims" fuel x "[]"]
  by (simp add: addMissingRowsToTableBounds_def)

lemma extendStart_result:
  assumes "0 < iv"
    and "(case (rs ! 0) x of None \<Rightarrow> 0 | Some a \<Rightarrow> stepsToReach iv (a - cs)) < fuel"
  shows "extendStart fuel x iv cs rs =
     Some ((case (rs ! 0) x of
              None \<Rightarrow> []
            | Some a \<Rightarrow> rev (map (\<lambda>k. axisRow x (a - int (Suc k) * iv))
                               [0..<stepsToReach iv (a - cs)])) @ rs)"
  using assms by (auto simp: extendStart_def prependLoop_result split: option.splits)

lemma extendEnd_result:
  assumes "0 < iv"
    and "(case dataEndTime of None \<Rightarrow> 0 | Some b \<Rightarrow> stepsToReach iv (ce - b)) < fuel"
  shows "extendEnd fuel x iv ce dataEndTime rs =
     Some (rs @ (case dataEndTime of
                   None \<Rightarrow> []
                 | Some b \<Rightarrow> map (\<lambda>k. axisRow x (b + int (Suc k) * iv))
                               [0..<stepsToReach iv (ce - b)]))"
  using assms by (auto simp: extendEnd_def appendLoop_result split: option.splits)

lemma addMissing_nonempty:
  assumes "rows dt \<noteq> []" "0 < intervalMillis dims" "getXAxisId dims (columns dt) = Inr x"
    and "iterationBound dt dims < fuel"
  shows "addMissingRowsToTableBounds fuel dt dims =
     Some (Inr (dt\<lparr>rows :=
       (case (rows dt ! 0) x of
          None \<Rightarrow> []
        | Some a \<Rightarrow> rev (map (\<lambda>k. axisRow x (a - int (Suc k) * intervalMillis dims))
                           [0..<stepsToReach (intervalMillis dims) (a - bounds_min dims)])) @
       rows dt @
       (case (rows dt ! (length (rows dt) - 1)) x of
          None \<Rightarrow> []
        | Some b \<Rightarrow> map (\<lambda>k. axisRow x (b + int (Suc k) * intervalMillis dims))
                      [0..<stepsToReach (intervalMillis dims) (bounds_max dims - b)])\<rparr>))"
proof -
  have b1: "(case (rows dt ! 0) x of None \<Rightarrow> 0
             | Some a \<Rightarrow> stepsToReach (intervalMillis dims) (a - bounds_min dims)) < fuel"
    and b2: "(case (rows dt ! (length (rows dt) - 1)) x of None \<Rightarrow> 0
             | Some b \<Rightarrow> stepsToReach (intervalMillis dims) (bounds_max dims - b)) < fuel"
    using assms(1,3,4) by (simp_all add: iterationBound_def)
  show ?thesis
    using assms(1,3) extendStart_result[OF assms(2) b1] extendEnd_result[OF assms(2) b2]
    by (simp add: addMissingRowsToTableBounds_def Let_def)
qed



lemma addMissing_frame:
  assumes "addMissingRowsToTableBounds fuel dt dims = Some (Inr tbl)"
  shows "\<exists>x pre post. getXAxisId dims (columns dt) = Inr x \<and> columns tbl = columns dt \<and>
           rows tbl = pre @ rows dt @ post \<and>
           (\<forall>r \<in> set pre \<union> set post. \<exists>t. r = axisRow x t)"
proof (cases "getXAxisId dims (columns dt)")
  case (Inl e)
  then show ?thesis using assms by (simp add: addMissingRowsToTableBounds_def)
next
  case (Inr x)
  show ?thesis
  proof (cases "rows dt = []")
    case True
    then obtain rs where rs: "fillLoop fuel x (intervalMillis dims) (bounds_max dims) (bounds_min dims) [] = Some rs"
      "tbl = dt\<lparr>rows := rs\<rparr>"
      using assms Inr by (auto simp: addMissingRowsToTableBounds_def split: option.splits)
    from fillLoop_frame[OF rs(1)] have "\<forall>r\<in>set rs. \<exists>t. r = axisRow x t" by auto
    then have "rows tbl = [] @ rows dt @ rs \<and> (\<forall>r \<in> set [] \<union> set rs. \<exists>t. r = axisRow x t)"
      using rs(2) True by simp
    then show ?thesis using Inr rs(2) by (metis datatable.select_convs(1) datatable.surjective datatable.update_convs(2))
  next
    case False
    then obtain rs1 rs2 where
      r1: "extendStart fuel x (intervalMillis dims) (bounds_min dims) (rows dt) = Some rs1" and
      r2: "extendEnd fuel x (intervalMillis dims) (bounds_max dims)
             ((rows dt ! (length (rows dt) - 1)) x) rs1 = Some rs2" and
      t: "tbl = dt\<lparr>rows := rs2\<rparr>"
      using assms Inr by (auto simp: addMissingRowsToTableBounds_def Let_def split: option.splits)
    from r1 obtain pre where pre: "rs1 = pre @ rows dt" "\<forall>r\<in>set pre. \<exists>t. r = axisRow x t"
      using prependLoop_frame by (fastforce simp: extendStart_def split: option.splits)
    from r2 obtain post where post: "rs2 = rs1 @ post" "\<forall>r\<in>set post. \<exists>t. r = axisRow x t"
      using appendLoop_frame by (fastforce simp: extendEnd_def split: option.splits)
    have "rows tbl = pre @ rows dt @ post \<and> (\<forall>r \<in> set pre \<union> set post. \<exists>t. r = axisRow x t)"
      using pre post t by auto
    moreover have "columns tbl = columns dt" using t by simp
    ultimately show ?thesis using Inr by blast
  qed
qed

text \<open>More fuel never changes a result: the result of a call that returns is unique.\<close>

lemma addMissing_fuel_mono:
  assumes "addMissingRowsToTableBounds fuel dt dims = Some r" "fuel \<le> fuel'"
  shows "addMissingRowsToTableBounds fuel' dt dims = Some r"
proof (cases "getXAxisId dims (columns dt)")
  case (Inl e)
  then show ?thesis using assms(1) by (simp add: addMissingRowsToTableBounds_def)
next
  case (Inr x)
  show ?thesis
  proof (cases "rows dt = []")
    case True
    then obtain rs where rs:
      "fillLoop fuel x (intervalMillis dims) (bounds_max dims) (bounds_min dims) [] = Some rs"
      "r = Inr (dt\<lparr>rows := rs\<rparr>)"
      using assms(1) Inr by (auto simp: addMissingRowsToTableBounds_def split: option.splits)
    from fillLoop_mono[OF rs(1) assms(2)] show ?thesis
      using True Inr rs(2) by (simp add: addMissingRowsToTableBounds_def)
  next
    case False
    then obtain rs1 rs2 where
      r1: "extendStart fuel x (intervalMillis dims) (bounds_min dims) (rows dt) = Some rs1" and
      r2: "extendEnd fuel x (intervalMillis dims) (bounds_max dims)
             ((rows dt ! (length (rows dt) - 1)) x) rs1 = Some rs2" and
      t: "r = Inr (dt\<lparr>rows := rs2\<rparr>)"
      using assms(1) Inr
      by (auto simp: addMissingRowsToTableBounds_def Let_def split: option.splits)
    have "extendStart fuel' x (intervalMillis dims) (bounds_min dims) (rows dt) = Some rs1"
      using r1 prependLoop_mono[OF _ assms(2)]
      by (auto simp: extendStart_def split: option.splits)
    moreover have "extendEnd fuel' x (intervalMillis dims) (bounds_max dims)
             ((rows dt ! (length (rows dt) - 1)) x) rs1 = Some rs2"
      using r2 appendLoop_mono[OF _ assms(2)]
      by (auto simp: extendEnd_def split: option.splits)
    ultimately show ?thesis
      using False Inr t by (simp add: addMissingRowsToTableBounds_def Let_def)
  qed
qed

text \<open>
  C6. With no input rows, a positive interval and an axis column, the call returns the table
  with \<open>n\<close> rows, where \<open>n\<close> is \<open>floor((bounds_max - bounds_min) / interval) + 1\<close>, or 0
  when that is negative. Row \<open>k\<close> (\<open>k = 0, ..., n - 1\<close>) is the object whose only field is
  the axis field, with the value \<open>bounds_min + k * interval\<close>. The times of the rows are
  exactly the times between \<open>bounds_min\<close> and \<open>bounds_max\<close> (both included) that lie a
  whole number of intervals after \<open>bounds_min\<close>. When the two bounds are equal there is
  exactly one row.
\<close>

theorem addMissingRowsToTableBounds_empty_input:
  assumes "rows dt = []" "0 < intervalMillis dims" "getXAxisId dims (columns dt) = Inr x"
  shows "\<exists>fuel n. addMissingRowsToTableBounds fuel dt dims =
           Some (Inr (dt\<lparr>rows := map (\<lambda>k. [x \<mapsto> bounds_min dims + int k * intervalMillis dims])
                                    [0..<n]\<rparr>)) \<and>
         n = nat ((bounds_max dims - bounds_min dims) div intervalMillis dims + 1) \<and>
         (\<forall>t. (\<exists>k<n. t = bounds_min dims + int k * intervalMillis dims) \<longleftrightarrow>
              (bounds_min dims \<le> t \<and> t \<le> bounds_max dims \<and>
               intervalMillis dims dvd (t - bounds_min dims))) \<and>
         (bounds_min dims = bounds_max dims \<longrightarrow> n = 1)"
proof -
  let ?n = "nat ((bounds_max dims - bounds_min dims) div intervalMillis dims + 1)"
  have "addMissingRowsToTableBounds (Suc ?n) dt dims =
     Some (Inr (dt\<lparr>rows := map (\<lambda>k. axisRow x (bounds_min dims + int k * intervalMillis dims))
                   [0..<?n]\<rparr>))"
    using assms by (intro addMissing_empty) simp_all
  then have "addMissingRowsToTableBounds (Suc ?n) dt dims =
     Some (Inr (dt\<lparr>rows := map (\<lambda>k. [x \<mapsto> bounds_min dims + int k * intervalMillis dims])
                   [0..<?n]\<rparr>))"
    by (simp only: axisRow_def)
  moreover have "\<forall>t. (\<exists>k<?n. t = bounds_min dims + int k * intervalMillis dims) \<longleftrightarrow>
              (bounds_min dims \<le> t \<and> t \<le> bounds_max dims \<and>
               intervalMillis dims dvd (t - bounds_min dims))"
    using progression_keys[OF assms(2)] by blast
  moreover have "bounds_min dims = bounds_max dims \<longrightarrow> ?n = 1" by simp
  ultimately show ?thesis by blast
qed

text \<open>
  The chart range 0 to 25 with an interval of 10 gives the three rows with the times 0, 10
  and 20; the chart range 5 to 5 gives the one row with the time 5.
\<close>

theorem addMissingRowsToTableBounds_empty_input_witness:
  "(\<exists>fuel. addMissingRowsToTableBounds fuel
      \<lparr>columns = [\<lparr>col_id = ''x'', col_name = ''time'', meta_type = None\<rparr>], rows = []\<rparr>
      \<lparr>x_label = ''time'', intervalMillis = 10, bounds_min = 0, bounds_max = 25\<rparr> =
    Some (Inr \<lparr>columns = [\<lparr>col_id = ''x'', col_name = ''time'', meta_type = None\<rparr>],
               rows = [[''x'' \<mapsto> 0], [''x'' \<mapsto> 10], [''x'' \<mapsto> 20]]\<rparr>)) \<and>
   (\<exists>fuel. addMissingRowsToTableBounds fuel
      \<lparr>columns = [\<lparr>col_id = ''x'', col_name = ''time'', meta_type = None\<rparr>], rows = []\<rparr>
      \<lparr>x_label = ''time'', intervalMillis = 10, bounds_min = 5, bounds_max = 5\<rparr> =
    Some (Inr \<lparr>columns = [\<lparr>col_id = ''x'', col_name = ''time'', meta_type = None\<rparr>],
               rows = [[''x'' \<mapsto> 5]]\<rparr>))"
proof -
  let ?T = "\<lparr>columns = [\<lparr>col_id = ''x'', col_name = ''time'', meta_type = None\<rparr>],
             rows = ([]::row list)\<rparr>"
  let ?D = "\<lparr>x_label = ''time'', intervalMillis = 10, bounds_min = 0, bounds_max = 25\<rparr>"
  let ?E = "\<lparr>x_label = ''time'', intervalMillis = 10, bounds_min = 5, bounds_max = 5\<rparr>"
  have g: "getXAxisId ?D (columns ?T) = Inr ''x''" "getXAxisId ?E (columns ?T) = Inr ''x''"
    by (simp_all add: getXAxisId_def)
  have u: "[0..<3] = [0, 1, 2]" "[0..<1] = [0]" by (simp_all add: upt_conv_Cons)
  have "\<exists>fuel. addMissingRowsToTableBounds fuel ?T ?D =
          Some (Inr \<lparr>columns = [\<lparr>col_id = ''x'', col_name = ''time'', meta_type = None\<rparr>],
                     rows = [[''x'' \<mapsto> 0], [''x'' \<mapsto> 10], [''x'' \<mapsto> 20]]\<rparr>)"
    using addMissingRowsToTableBounds_empty_input[of ?T ?D "''x''"] g(1) by (auto simp: u)
  moreover have "\<exists>fuel. addMissingRowsToTableBounds fuel ?T ?E =
          Some (Inr \<lparr>columns = [\<lparr>col_id = ''x'', col_name = ''time'', meta_type = None\<rparr>],
                     rows = [[''x'' \<mapsto> 5]]\<rparr>)"
    using addMissingRowsToTableBounds_empty_input[of ?T ?E "''x''"] g(2) by (auto simp: u)
  ultimately show ?thesis by simp
qed





section \<open>Density of the extended table\<close>

lemma axisRow_apply [simp]: "axisRow x t x = Some t"
  by (simp add: axisRow_def)

lemma consecutive_Cons:
  "consecutiveKeysDifferBy x iv rs \<Longrightarrow> rs \<noteq> [] \<Longrightarrow> hd rs x = Some a \<Longrightarrow>
   consecutiveKeysDifferBy x iv (axisRow x (a - iv) # rs)"
  by (cases rs) simp_all

lemma consecutive_snoc:
  "consecutiveKeysDifferBy x iv rs \<Longrightarrow> rs \<noteq> [] \<Longrightarrow> last rs x = Some b \<Longrightarrow>
   consecutiveKeysDifferBy x iv (rs @ [axisRow x (b + iv)])"
proof (induction x iv rs rule: consecutiveKeysDifferBy.induct)
  case (1 x iv)
  then show ?case by simp
next
  case (2 x iv r)
  then show ?case by simp
next
  case (3 x iv r s rs)
  then show ?case by simp
qed

lemma consecutive_prepended:
  assumes "consecutiveKeysDifferBy x iv rs" "rs \<noteq> []" "hd rs x = Some a"
  shows "consecutiveKeysDifferBy x iv
           (rev (map (\<lambda>k. axisRow x (a - int (Suc k) * iv)) [0..<m]) @ rs) \<and>
         hd (rev (map (\<lambda>k. axisRow x (a - int (Suc k) * iv)) [0..<m]) @ rs) x =
           Some (a - int m * iv)"
proof (induction m)
  case 0
  then show ?case using assms by simp
next
  case (Suc m)
  let ?out = "rev (map (\<lambda>k. axisRow x (a - int (Suc k) * iv)) [0..<m]) @ rs"
  have ne: "?out \<noteq> []" using assms(2) by simp
  have "consecutiveKeysDifferBy x iv (axisRow x ((a - int m * iv) - iv) # ?out)"
    using Suc ne by (intro consecutive_Cons) simp_all
  then show ?case by (simp add: algebra_simps)
qed

lemma consecutive_appended:
  assumes "consecutiveKeysDifferBy x iv rs" "rs \<noteq> []" "last rs x = Some b"
  shows "consecutiveKeysDifferBy x iv
           (rs @ map (\<lambda>k. axisRow x (b + int (Suc k) * iv)) [0..<m]) \<and>
         last (rs @ map (\<lambda>k. axisRow x (b + int (Suc k) * iv)) [0..<m]) x =
           Some (b + int m * iv)"
proof (induction m)
  case 0
  then show ?case using assms by simp
next
  case (Suc m)
  let ?out = "rs @ map (\<lambda>k. axisRow x (b + int (Suc k) * iv)) [0..<m]"
  have ne: "?out \<noteq> []" using assms(2) by simp
  have "consecutiveKeysDifferBy x iv (?out @ [axisRow x ((b + int m * iv) + iv)])"
    using Suc ne by (intro consecutive_snoc) simp_all
  then show ?case by (simp add: algebra_simps)
qed

lemma consecutive_last:
  "consecutiveKeysDifferBy x iv rs \<Longrightarrow> rs \<noteq> [] \<Longrightarrow> hd rs x = Some a \<Longrightarrow>
   last rs x = Some (a + (int (length rs) - 1) * iv)"
proof (induction x iv rs arbitrary: a rule: consecutiveKeysDifferBy.induct)
  case (1 x iv)
  then show ?case by simp
next
  case (2 x iv r)
  then show ?case by simp
next
  case (3 x iv r s rs)
  from "3.prems" obtain b where b: "s x = Some b" "b - a = iv"
    by (auto split: option.splits)
  have "last (s # rs) x = Some (b + (int (length (s # rs)) - 1) * iv)"
    using "3.IH"[of b] "3.prems" b by simp
  then show ?case using b by (simp add: algebra_simps)
qed

lemma rowCount_of_consecutive:
  assumes "0 < iv" "consecutiveKeysDifferBy x iv rs" "rs \<noteq> []" "hd rs x = Some a"
  shows "rowCountMatchesKeys x iv rs"
proof -
  obtain r rs' where rs: "rs = r # rs'" using assms(3) by (cases rs) auto
  have l: "last rs x = Some (a + (int (length rs) - 1) * iv)"
    using consecutive_last[OF assms(2,3,4)] .
  have "((int (length rs) - 1) * iv) div iv = int (length rs) - 1" using assms(1) by simp
  then show ?thesis using l rs assms(4) by (simp add: rowCountMatchesKeys_def)
qed

lemma consecutive_progression:
  "consecutiveKeysDifferBy x iv (map (\<lambda>k. axisRow x (a + int k * iv)) [0..<Suc n])"
proof -
  have "consecutiveKeysDifferBy x iv ([axisRow x a] @ map (\<lambda>k. axisRow x (a + int (Suc k) * iv)) [0..<n])"
    using consecutive_appended[of x iv "[axisRow x a]" a n] by simp
  then show ?thesis by (simp add: upt_0_Suc_map del: upt_Suc)
qed

text \<open>
  C4, as stated, fails on a table whose own rows have a gap: the function only adds rows
  before the first and after the last row, so the gap stays. With interval 10 and bounds
  0 and 20, the rows with keys 0 and 20 come back unchanged: two rows, 20 apart, where
  the density formula asks for three.
\<close>

theorem addMissingRowsToTableBounds_density_counterexample:
  "0 < intervalMillis \<lparr>x_label = ''time'', intervalMillis = 10, bounds_min = 0, bounds_max = 20\<rparr> \<and>
   bounds_min \<lparr>x_label = ''time'', intervalMillis = 10, bounds_min = 0, bounds_max = 20\<rparr>
     \<le> bounds_max \<lparr>x_label = ''time'', intervalMillis = 10, bounds_min = 0, bounds_max = 20\<rparr> \<and>
   addMissingRowsToTableBounds 1
     \<lparr>columns = [\<lparr>col_id = ''x'', col_name = ''time'', meta_type = None\<rparr>],
      rows = [[''x'' \<mapsto> 0], [''x'' \<mapsto> 20]]\<rparr>
     \<lparr>x_label = ''time'', intervalMillis = 10, bounds_min = 0, bounds_max = 20\<rparr> =
   Some (Inr \<lparr>columns = [\<lparr>col_id = ''x'', col_name = ''time'', meta_type = None\<rparr>],
              rows = [[''x'' \<mapsto> 0], [''x'' \<mapsto> 20]]\<rparr>) \<and>
   \<not> consecutiveKeysDifferBy ''x'' 10 [[''x'' \<mapsto> 0], [''x'' \<mapsto> 20]] \<and>
   \<not> rowCountMatchesKeys ''x'' 10 [[''x'' \<mapsto> 0], [''x'' \<mapsto> 20]]"
  by (simp add: addMissingRowsToTableBounds_def getXAxisId_def extendStart_def extendEnd_def
      rowCountMatchesKeys_def)

text \<open>
  C4, amended. For \<open>bounds_min \<le> bounds_max\<close> and a positive interval, when every
  input row has the axis field and consecutive input rows already differ by exactly the
  interval (in particular when there are no input rows), the call returns a table whose
  consecutive rows differ by exactly the interval and whose row count is
  \<open>(lastKey - firstKey) div interval + 1\<close>.
\<close>

theorem addMissingRowsToTableBounds_density:
  assumes "0 < intervalMillis dims" "bounds_min dims \<le> bounds_max dims"
    and "getXAxisId dims (columns dt) = Inr x"
    and "consecutiveKeysDifferBy x (intervalMillis dims) (rows dt)"
    and "\<forall>r \<in> set (rows dt). r x \<noteq> None"
  shows "\<exists>fuel tbl. addMissingRowsToTableBounds fuel dt dims = Some (Inr tbl) \<and>
           consecutiveKeysDifferBy x (intervalMillis dims) (rows tbl) \<and>
           rowCountMatchesKeys x (intervalMillis dims) (rows tbl)"
proof (cases "rows dt = []")
  case True
  let ?iv = "intervalMillis dims"
  let ?n = "nat ((bounds_max dims - bounds_min dims) div ?iv + 1)"
  let ?rs = "map (\<lambda>k. axisRow x (bounds_min dims + int k * ?iv)) [0..<?n]"
  have r: "addMissingRowsToTableBounds (Suc ?n) dt dims = Some (Inr (dt\<lparr>rows := ?rs\<rparr>))"
    using True assms by (intro addMissing_empty) simp_all
  have "0 \<le> (bounds_max dims - bounds_min dims) div ?iv"
    using assms(1,2) by (simp add: pos_imp_zdiv_nonneg_iff)
  then obtain m where m: "?n = Suc m" by (cases ?n) auto
  have c: "consecutiveKeysDifferBy x ?iv ?rs"
    unfolding m by (rule consecutive_progression)
  have ne: "?rs \<noteq> []" "hd ?rs x = Some (bounds_min dims)"
    unfolding m by (simp_all add: upt_0_Suc_map del: upt_Suc)
  have "rowCountMatchesKeys x ?iv ?rs"
    using rowCount_of_consecutive[OF assms(1) c ne] .
  then show ?thesis using r c by (intro exI[of _ "Suc ?n"] exI[of _ "dt\<lparr>rows := ?rs\<rparr>"]) simp
next
  case False
  let ?iv = "intervalMillis dims"
  from False assms(5) obtain a where a: "(rows dt ! 0) x = Some a"
    by (cases "rows dt") auto
  from False assms(5) obtain b where b: "(rows dt ! (length (rows dt) - 1)) x = Some b"
    by (metis last_conv_nth last_in_set not_Some_eq)
  let ?pre = "rev (map (\<lambda>k. axisRow x (a - int (Suc k) * ?iv))
                   [0..<stepsToReach ?iv (a - bounds_min dims)])"
  let ?post = "map (\<lambda>k. axisRow x (b + int (Suc k) * ?iv))
                   [0..<stepsToReach ?iv (bounds_max dims - b)]"
  have r: "addMissingRowsToTableBounds (Suc (iterationBound dt dims)) dt dims =
           Some (Inr (dt\<lparr>rows := ?pre @ rows dt @ ?post\<rparr>))"
    using addMissing_nonempty[OF False assms(1,3), of "Suc (iterationBound dt dims)"] a b by simp
  have hd: "hd (rows dt) x = Some a" using a False by (simp add: hd_conv_nth)
  have p: "consecutiveKeysDifferBy x ?iv (?pre @ rows dt)"
    "hd (?pre @ rows dt) x = Some (a - int (stepsToReach ?iv (a - bounds_min dims)) * ?iv)"
    using consecutive_prepended[OF assms(4) False hd] by blast+
  have "last (rows dt) x = Some b"
    using b False by (simp add: last_conv_nth)
  then have lst: "last (?pre @ rows dt) x = Some b"
    using False by simp
  have ne: "?pre @ rows dt \<noteq> []" using False by simp
  have q: "consecutiveKeysDifferBy x ?iv ((?pre @ rows dt) @ ?post)"
    using consecutive_appended[OF p(1) ne lst] by blast
  have hd2: "hd ((?pre @ rows dt) @ ?post) x =
             Some (a - int (stepsToReach ?iv (a - bounds_min dims)) * ?iv)"
    using p(2) hd_append2[OF ne] by metis
  have ne2: "(?pre @ rows dt) @ ?post \<noteq> []" using False by simp
  have "rowCountMatchesKeys x ?iv ((?pre @ rows dt) @ ?post)"
    using rowCount_of_consecutive[OF assms(1) q ne2 hd2] .
  then show ?thesis using r q
    by (intro exI[of _ "Suc (iterationBound dt dims)"] exI[of _ "dt\<lparr>rows := ?pre @ rows dt @ ?post\<rparr>"]) simp
qed

theorem addMissingRowsToTableBounds_density_witness:
  "\<exists>fuel tbl. addMissingRowsToTableBounds fuel
        \<lparr>columns = [\<lparr>col_id = ''x'', col_name = ''time'', meta_type = None\<rparr>],
         rows = [[''x'' \<mapsto> 10], [''x'' \<mapsto> 20]]\<rparr>
        \<lparr>x_label = ''time'', intervalMillis = 10, bounds_min = 0, bounds_max = 50\<rparr> =
      Some (Inr tbl) \<and>
      consecutiveKeysDifferBy ''x'' 10 (rows tbl) \<and> rowCountMatchesKeys ''x'' 10 (rows tbl)"
  using addMissingRowsToTableBounds_density
    [of "\<lparr>x_label = ''time'', intervalMillis = 10, bounds_min = 0, bounds_max = 50\<rparr>"
        "\<lparr>columns = [\<lparr>col_id = ''x'', col_name = ''time'', meta_type = None\<rparr>],
          rows = [[''x'' \<mapsto> 10], [''x'' \<mapsto> 20]]\<rparr>" "''x''"]
  by (simp add: getXAxisId_def)

section \<open>The cursor loop of the event binner\<close>

lemma js_absdiff_Some [simp]: "js_absdiff t (Some w) = Some \<bar>t - w\<bar>"
  by (simp add: js_absdiff_def)

lemma js_absdiff_None [simp]: "js_absdiff t None = None"
  by (simp add: js_absdiff_def)

declare findRowIndexToInsert.simps [simp del]


lemma isNearestRow_iff:
  "isNearestRow x rs t r \<longleftrightarrow>
     r < length rs \<and> (\<exists>k. (rs ! r) x = Some k \<and>
       (\<forall>j < length rs. \<exists>k'. (rs ! j) x = Some k' \<and>
           (\<bar>t - k\<bar> < \<bar>t - k'\<bar> \<or> (\<bar>t - k\<bar> = \<bar>t - k'\<bar> \<and> k \<le> k'))))"
proof (cases "(rs ! r) x")
  case None
  then show ?thesis by (simp add: isNearestRow_def)
next
  case (Some k)
  have "(case r' x of None \<Rightarrow> False
         | Some k' \<Rightarrow> \<bar>t - k\<bar> < \<bar>t - k'\<bar> \<or> (\<bar>t - k\<bar> = \<bar>t - k'\<bar> \<and> k \<le> k')) \<longleftrightarrow>
        (\<exists>k'. r' x = Some k' \<and> (\<bar>t - k\<bar> < \<bar>t - k'\<bar> \<or> (\<bar>t - k\<bar> = \<bar>t - k'\<bar> \<and> k \<le> k')))" for r' :: row
    by (cases "r' x") simp_all
  then show ?thesis using Some by (simp add: isNearestRow_def list_all_length)
qed




lemma keys_nth:
  assumes "map (\<lambda>r. r x) rs' = map (\<lambda>r. r x) rs" "j < length rs"
  shows "(rs' ! j) x = (rs ! j) x"
proof -
  have l: "length rs' = length rs" using assms(1) by (rule map_eq_imp_length_eq)
  have "map (\<lambda>r. r x) rs' ! j = map (\<lambda>r. r x) rs ! j" using assms(1) by simp
  then show ?thesis using assms(2) l by simp
qed

lemma find_keys_cong:
  assumes k: "map (\<lambda>r. r x) rs' = map (\<lambda>r. r x) rs"
  shows "findRowIndexToInsert x rs' t i = findRowIndexToInsert x rs t i"
proof (induction "length rs - 1 - i" arbitrary: i)
  case 0
  have l: "length rs' = length rs" using k by (rule map_eq_imp_length_eq)
  have "\<not> i < length rs - 1" using 0 by simp
  then show ?case using l
    by (simp add: findRowIndexToInsert.simps[of x rs t i] findRowIndexToInsert.simps[of x rs' t i])
next
  case (Suc n)
  have l: "length rs' = length rs" using k by (rule map_eq_imp_length_eq)
  have ilt: "i < length rs - 1" using Suc.hyps(2) by simp
  have a: "(rs' ! i) x = (rs ! i) x" using keys_nth[OF k, of i] ilt by simp
  have b: "(rs' ! (i + 1)) x = (rs ! (i + 1)) x" using keys_nth[OF k, of "i + 1"] ilt by simp
  have m: "n = length rs - 1 - (i + 1)" using Suc.hyps(2) by simp
  have r: "findRowIndexToInsert x rs' t (i + 1) = findRowIndexToInsert x rs t (i + 1)"
    by (rule Suc.hyps(1)[OF m])
  show ?case
    using a b l r
    by (simp add: findRowIndexToInsert.simps[of x rs t i] findRowIndexToInsert.simps[of x rs' t i]
        Let_def)
qed




text \<open>
  When the keys are strictly increasing, a nearest row in this sense is also the earliest
  one: every earlier row with a smaller key is strictly farther from the timestamp.
\<close>

lemma isNearestRow_least_index:
  assumes "isNearestRow x rs t r" "j < r"
    and "(rs ! j) x = Some kj" "(rs ! r) x = Some kr" "kj < kr"
  shows "\<bar>t - kr\<bar> < \<bar>t - kj\<bar>"
proof -
  have "j < length rs" using assms(1,2) by (simp add: isNearestRow_iff)
  then obtain k' where "(rs ! j) x = Some k'"
    "\<bar>t - kr\<bar> < \<bar>t - k'\<bar> \<or> (\<bar>t - kr\<bar> = \<bar>t - k'\<bar> \<and> kr \<le> k')"
    using assms(1,4) unfolding isNearestRow_iff by fastforce
  then show ?thesis using assms(3,5) by auto
qed

section \<open>Counting binned events\<close>

lemma incrementField_plain:
  "plainColumnId c \<Longrightarrow>
   incrementField c r = Inr (r(c \<mapsto> (case r c of None \<Rightarrow> 0 | Some v \<Rightarrow> v) + 1))"
  by (simp add: incrementField_def split: option.splits)

lemma find_in_range:
  "i < length rs - 1 \<Longrightarrow>
   \<exists>i' r. findRowIndexToInsert x rs t i = (i', Some r) \<and> i' < length rs - 1 \<and> r < length rs"
proof (induction "length rs - 1 - i" arbitrary: i)
  case 0
  then show ?case by simp
next
  case (Suc n)
  show ?case
  proof (cases "\<not> js_le (Some t) ((rs ! i) x) \<and> \<not> js_le (Some t) ((rs ! (i + 1)) x) \<and>
                i + 1 \<noteq> length rs - 1")
    case True
    have m: "n = length rs - 1 - (i + 1)" using Suc.hyps(2) by simp
    have "i + 1 < length rs - 1" using True Suc.prems by simp
    from Suc.hyps(1)[OF m this] show ?thesis
      using True Suc.prems by (simp add: findRowIndexToInsert.simps[of x rs t i] Let_def)
  next
    case False
    then show ?thesis
      using Suc.prems by (auto simp: findRowIndexToInsert.simps[of x rs t i] Let_def)
  qed
qed

lemma binTimestamp_plain:
  assumes "plainColumnId c" "findRowIndexToInsert x rs t i = (i', Some r)"
  shows "binTimestamp x c t (i, rs) =
           Inr (i', rs[r := (rs ! r)(c \<mapsto> (case (rs ! r) c of None \<Rightarrow> 0 | Some v \<Rightarrow> v) + 1)])"
  using assms by (simp add: binTimestamp_def incrementField_plain)

lemma sum_list_update_int:
  fixes xs :: "int list"
  shows "k < length xs \<Longrightarrow> sum_list (xs[k := v]) = sum_list xs + v - xs ! k"
proof (induction xs arbitrary: k)
  case Nil
  then show ?case by simp
next
  case (Cons a xs)
  then show ?case by (cases k) simp_all
qed

lemma columnSum_update:
  assumes "r < length rs"
  shows "columnSum c (rs[r := (rs ! r)(c \<mapsto> (case (rs ! r) c of None \<Rightarrow> 0 | Some v \<Rightarrow> v) + 1)]) =
           columnSum c rs + 1"
proof -
  let ?f = "\<lambda>r. case r c of None \<Rightarrow> (0::int) | Some v \<Rightarrow> v"
  have "map ?f (rs[r := (rs ! r)(c \<mapsto> ?f (rs ! r) + 1)]) = (map ?f rs)[r := ?f (rs ! r) + 1]"
    by (simp add: map_update)
  then have "columnSum c (rs[r := (rs ! r)(c \<mapsto> ?f (rs ! r) + 1)]) =
             sum_list ((map ?f rs)[r := ?f (rs ! r) + 1])"
    by (simp add: columnSum_def)
  also have "\<dots> = sum_list (map ?f rs) + (?f (rs ! r) + 1) - (map ?f rs) ! r"
    using assms by (subst sum_list_update_int) simp_all
  finally show ?thesis using assms by (simp add: columnSum_def)
qed

lemma columnSum_update_other:
  assumes "c' \<noteq> c"
  shows "columnSum c' (rs[r := (rs ! r)(c \<mapsto> v)]) = columnSum c' rs"
proof (cases "r < length rs")
  case True
  have "map (\<lambda>r. case r c' of None \<Rightarrow> (0::int) | Some v \<Rightarrow> v) (rs[r := (rs ! r)(c \<mapsto> v)]) =
        map (\<lambda>r. case r c' of None \<Rightarrow> (0::int) | Some v \<Rightarrow> v) rs"
    using True assms by (intro nth_equalityI) (auto simp: nth_list_update)
  then show ?thesis by (simp add: columnSum_def)
next
  case False
  then have "rs[r := (rs ! r)(c \<mapsto> v)] = rs" by (intro list_update_beyond) simp
  then show ?thesis by simp
qed

lemma forEach_binTimestamp_sum:
  assumes pc: "plainColumnId c"
  shows "i < length rs - 1 \<Longrightarrow>
   \<exists>i' rs'. forEach (binTimestamp x c) ts (i, rs) = Inr (i', rs') \<and>
     length rs' = length rs \<and>
     columnSum c rs' = columnSum c rs + int (length ts) \<and>
     (\<forall>c'. c' \<noteq> c \<longrightarrow> columnSum c' rs' = columnSum c' rs)"
proof (induction ts arbitrary: i rs)
  case Nil
  then show ?case by simp
next
  case (Cons t ts)
  from find_in_range[OF Cons.prems, of x t]
  obtain i' r where f: "findRowIndexToInsert x rs t i = (i', Some r)"
    "i' < length rs - 1" "r < length rs" by blast
  let ?rs = "rs[r := (rs ! r)(c \<mapsto> (case (rs ! r) c of None \<Rightarrow> 0 | Some v \<Rightarrow> v) + 1)]"
  have b: "binTimestamp x c t (i, rs) = Inr (i', ?rs)" by (rule binTimestamp_plain[OF pc f(1)])
  have "i' < length ?rs - 1" using f(2) by simp
  from Cons.IH[OF this]
  obtain i'' rs' where r: "forEach (binTimestamp x c) ts (i', ?rs) = Inr (i'', rs')"
    "length rs' = length ?rs" "columnSum c rs' = columnSum c ?rs + int (length ts)"
    "\<forall>c'. c' \<noteq> c \<longrightarrow> columnSum c' rs' = columnSum c' ?rs" by blast
  have "forEach (binTimestamp x c) (t # ts) (i, rs) = Inr (i'', rs')" using b r(1) by simp
  moreover have "length rs' = length rs" using r(2) by simp
  moreover have "columnSum c rs' = columnSum c rs + int (length (t # ts))"
    using r(3) columnSum_update[OF f(3), of c] by simp
  moreover have "\<forall>c'. c' \<noteq> c \<longrightarrow> columnSum c' rs' = columnSum c' rs"
    using r(4) columnSum_update_other[of _ c rs r] by simp
  ultimately show ?case by blast
qed

lemma sort_timestamps_empty: "sort (map timestamp es) = [] \<longleftrightarrow> es = []"
  by (metis length_sort length_map length_0_conv)

lemma processVisLayer_many:
  assumes "2 \<le> length (rows tbl)" "plainColumnId (pluginResource_id l)"
  shows "\<exists>tbl'. processVisLayer x l tbl = Inr (True, tbl') \<and>
           columns tbl' =
             columns tbl @ [visLayerColumn (pluginResource_id l) (pluginResource_name l)] \<and>
           length (rows tbl') = length (rows tbl) \<and>
           columnSum (pluginResource_id l) (rows tbl') =
             columnSum (pluginResource_id l) (rows tbl) + int (length (events l)) \<and>
           (\<forall>c'. c' \<noteq> pluginResource_id l \<longrightarrow>
                 columnSum c' (rows tbl') = columnSum c' (rows tbl))"
proof (cases "events l = []")
  case True
  have ne: "rows tbl \<noteq> []" "length (rows tbl) \<noteq> Suc 0" using assms(1) by auto
  show ?thesis using ne True by (simp add: processVisLayer_def Let_def)
next
  case False
  have ne: "rows tbl \<noteq> []" "length (rows tbl) \<noteq> Suc 0" using assms(1) by auto
  have i: "0 < length (rows tbl) - 1" using assms(1) by simp
  have se: "sort (map timestamp (events l)) \<noteq> []" using False by (simp add: sort_timestamps_empty)
  from forEach_binTimestamp_sum[OF assms(2) i, of x "sort (map timestamp (events l))"]
  obtain i' rs' where r:
    "forEach (binTimestamp x (pluginResource_id l)) (sort (map timestamp (events l))) (0, rows tbl) =
       Inr (i', rs')"
    "length rs' = length (rows tbl)"
    "columnSum (pluginResource_id l) rs' =
       columnSum (pluginResource_id l) (rows tbl) + int (length (sort (map timestamp (events l))))"
    "\<forall>c'. c' \<noteq> pluginResource_id l \<longrightarrow> columnSum c' rs' = columnSum c' (rows tbl)"
    by blast
  have "processVisLayer x l tbl =
          Inr (True, tbl\<lparr>columns := columns tbl @
                 [visLayerColumn (pluginResource_id l) (pluginResource_name l)], rows := rs'\<rparr>)"
    using ne se r(1) by (simp add: processVisLayer_def Let_def)
  then show ?thesis using r(2,3,4) by simp
qed

lemma every_many:
  "2 \<le> length (rows tbl) \<Longrightarrow> list_all (\<lambda>l. plainColumnId (pluginResource_id l)) ls \<Longrightarrow>
   \<exists>tbl'. every (processVisLayer x) ls tbl = Inr tbl' \<and>
     columns tbl' =
       columns tbl @ map (\<lambda>l. visLayerColumn (pluginResource_id l) (pluginResource_name l)) ls \<and>
     length (rows tbl') = length (rows tbl) \<and>
     (\<forall>c. columnSum c (rows tbl') =
          columnSum c (rows tbl) +
          (\<Sum>l \<leftarrow> filter (\<lambda>l. pluginResource_id l = c) ls. int (length (events l))))"
proof (induction ls arbitrary: tbl)
  case Nil
  then show ?case by simp
next
  case (Cons l ls)
  have pl: "plainColumnId (pluginResource_id l)" using Cons.prems(2) by simp
  from processVisLayer_many[OF Cons.prems(1) pl, of x]
  obtain tbl1 where p: "processVisLayer x l tbl = Inr (True, tbl1)"
    "columns tbl1 = columns tbl @ [visLayerColumn (pluginResource_id l) (pluginResource_name l)]"
    "length (rows tbl1) = length (rows tbl)"
    "columnSum (pluginResource_id l) (rows tbl1) =
       columnSum (pluginResource_id l) (rows tbl) + int (length (events l))"
    "\<forall>c'. c' \<noteq> pluginResource_id l \<longrightarrow> columnSum c' (rows tbl1) = columnSum c' (rows tbl)"
    by blast
  have len: "2 \<le> length (rows tbl1)" using p(3) Cons.prems(1) by simp
  have rest: "list_all (\<lambda>l. plainColumnId (pluginResource_id l)) ls" using Cons.prems(2) by simp
  from Cons.IH[OF len rest]
  obtain tbl' where q: "every (processVisLayer x) ls tbl1 = Inr tbl'"
    "columns tbl' =
       columns tbl1 @ map (\<lambda>l. visLayerColumn (pluginResource_id l) (pluginResource_name l)) ls"
    "length (rows tbl') = length (rows tbl1)"
    "\<forall>c. columnSum c (rows tbl') =
          columnSum c (rows tbl1) +
          (\<Sum>l \<leftarrow> filter (\<lambda>l. pluginResource_id l = c) ls. int (length (events l)))"
    by blast
  have e: "every (processVisLayer x) (l # ls) tbl = Inr tbl'" using p(1) q(1) by simp
  have s: "columnSum c (rows tbl1) = columnSum c (rows tbl) +
            (if pluginResource_id l = c then int (length (events l)) else 0)" for c
    using p(4,5) by auto
  have "\<forall>c. columnSum c (rows tbl') =
          columnSum c (rows tbl) +
          (\<Sum>l \<leftarrow> filter (\<lambda>l. pluginResource_id l = c) (l # ls). int (length (events l)))"
    using q(4) s by simp
  then show ?case using e q(2,3) p(2,3) by simp
qed

lemma filter_distinct_key:
  "distinct (map g ls) \<Longrightarrow> l \<in> set ls \<Longrightarrow> filter (\<lambda>l'. g l' = g l) ls = [l]"
proof (induction ls)
  case Nil
  then show ?case by simp
next
  case (Cons a ls)
  show ?case
  proof (cases "a = l")
    case True
    have "g l \<notin> g ` set ls" using Cons.prems(1) True by simp
    then have "\<forall>l' \<in> set ls. g l' \<noteq> g l" by (metis imageI)
    then have "filter (\<lambda>l'. g l' = g l) ls = []" by (simp add: filter_empty_conv)
    then show ?thesis using True by simp
  next
    case False
    then have "l \<in> set ls" using Cons.prems(2) by simp
    moreover have "g a \<notin> g ` set ls" using Cons.prems(1) by simp
    then have "g a \<noteq> g l" using \<open>l \<in> set ls\<close> by (metis imageI)
    ultimately show ?thesis using Cons by simp
  qed
qed

lemma every_single_row:
  "length (rows tbl) = 1 \<Longrightarrow>
   every (processVisLayer x) (l # ls) tbl =
     Inr (tbl\<lparr>columns := columns tbl @
                  [visLayerColumn (pluginResource_id l) (pluginResource_name l)],
              rows := (rows tbl)[0 := (rows tbl ! 0)(pluginResource_id l \<mapsto>
                                         int (length (events l)))]\<rparr>)"
  by (simp add: processVisLayer_def Let_def)

lemma every_no_rows:
  "rows tbl = [] \<Longrightarrow>
   every (processVisLayer x) (l # ls) tbl =
     Inr (tbl\<lparr>columns := columns tbl @
                  [visLayerColumn (pluginResource_id l) (pluginResource_name l)]\<rparr>)"
  by (simp add: processVisLayer_def Let_def)

lemma addMissing_columns:
  assumes "addMissingRowsToTableBounds fuel dt dims = Some (Inr aug)"
  shows "columns aug = columns dt \<and> (\<exists>x. getXAxisId dims (columns aug) = Inr x)"
  using addMissing_frame[OF assms] by auto

lemma conservation_many_rows:
  assumes "addMissingRowsToTableBounds fuel dt dims = Some (Inr aug)"
    and "2 \<le> length (rows aug)"
    and "list_all (\<lambda>l. plainColumnId (pluginResource_id l)) ls"
    and "distinct (map pluginResource_id ls)" "l \<in> set ls"
    and "columnSum (pluginResource_id l) (rows aug) = 0"
  shows "\<exists>tbl. addPointInTimeEventsLayersToTable fuel dt dims ls = Some (Inr tbl) \<and>
           columnSum (pluginResource_id l) (rows tbl) = int (length (events l))"
proof -
  obtain x where x: "getXAxisId dims (columns aug) = Inr x"
    using addMissing_columns[OF assms(1)] by blast
  have ne: "ls \<noteq> []" using assms(5) by auto
  have r: "addPointInTimeEventsLayersToTable fuel dt dims ls =
           Some (every (processVisLayer x) ls aug)"
    using assms(1) x ne by (simp add: addPointInTimeEventsLayersToTable_def)
  from every_many[OF assms(2,3), of x]
  obtain tbl where t: "every (processVisLayer x) ls aug = Inr tbl"
    "\<forall>c. columnSum c (rows tbl) =
          columnSum c (rows aug) +
          (\<Sum>l \<leftarrow> filter (\<lambda>l. pluginResource_id l = c) ls. int (length (events l)))"
    by blast
  have "columnSum (pluginResource_id l) (rows tbl) =
        columnSum (pluginResource_id l) (rows aug) +
        (\<Sum>l' \<leftarrow> filter (\<lambda>l'. pluginResource_id l' = pluginResource_id l) ls. int (length (events l')))"
    using t(2) by blast
  also have "\<dots> = int (length (events l))"
    using filter_distinct_key[OF assms(4,5)] assms(6) by simp
  finally show ?thesis using r t(1) by simp
qed

section \<open>Rows written by the event binner\<close>


section \<open>Claims about the event binner\<close>



text \<open>
  C1. Conservation holds when the extended table has at least two rows
  (\<open>conservation_many_rows\<close>: plain and distinct column ids, the column empty before). It
  fails when the extended table has one row and there are two event sets: the callback
  returns false for the first set, \<open>every\<close> stops, and the second set is never counted.
  Here the second set \<open>b\<close> has two events and its column sums to 0.
\<close>

theorem conservation_single_row_second_layer_lost:
  "(case addPointInTimeEventsLayersToTable 1
           \<lparr>columns = [\<lparr>col_id = ''x'', col_name = ''time'', meta_type = None\<rparr>],
            rows = [[''x'' \<mapsto> 5]]\<rparr>
           \<lparr>x_label = ''time'', intervalMillis = 10, bounds_min = 5, bounds_max = 5\<rparr>
           [\<lparr>pluginResource_id = ''a'', pluginResource_name = ''A'',
             events = [\<lparr>timestamp = 4\<rparr>]\<rparr>,
            \<lparr>pluginResource_id = ''b'', pluginResource_name = ''B'',
             events = [\<lparr>timestamp = 5\<rparr>, \<lparr>timestamp = 6\<rparr>]\<rparr>] of
      Some (Inr tbl) \<Rightarrow>
        length (rows tbl) = 1 \<and> columnSum ''a'' (rows tbl) = 1 \<and> columnSum ''b'' (rows tbl) = 0
    | _ \<Rightarrow> False)"
  by (simp add: addPointInTimeEventsLayersToTable_def addMissingRowsToTableBounds_def
      getXAxisId_def extendStart_def extendEnd_def processVisLayer_def columnSum_def Let_def)

text \<open>
  C2. With at least two rows every event set is processed in order and gets its column
  descriptor (\<open>every_many\<close>, for plain column ids). With one row, or with none, the
  callback returns false and \<open>every\<close> stops after the first event set
  (\<open>every_single_row\<close>, \<open>every_no_rows\<close>): the second event set gets no column
  descriptor. Both cases are evaluated here, on a one-row table and on an empty table whose
  chart range is empty.
\<close>

theorem every_stops_after_first_layer:
  "(case addPointInTimeEventsLayersToTable 1
           \<lparr>columns = [\<lparr>col_id = ''x'', col_name = ''time'', meta_type = None\<rparr>],
            rows = [[''x'' \<mapsto> 5]]\<rparr>
           \<lparr>x_label = ''time'', intervalMillis = 10, bounds_min = 5, bounds_max = 5\<rparr>
           [\<lparr>pluginResource_id = ''a'', pluginResource_name = ''A'', events = []\<rparr>,
            \<lparr>pluginResource_id = ''b'', pluginResource_name = ''B'', events = []\<rparr>] of
      Some (Inr tbl) \<Rightarrow> map col_id (columns tbl) = [''x'', ''a'']
    | _ \<Rightarrow> False) \<and>
   (case addPointInTimeEventsLayersToTable 1
           \<lparr>columns = [\<lparr>col_id = ''x'', col_name = ''time'', meta_type = None\<rparr>], rows = []\<rparr>
           \<lparr>x_label = ''time'', intervalMillis = 10, bounds_min = 5, bounds_max = 4\<rparr>
           [\<lparr>pluginResource_id = ''a'', pluginResource_name = ''A'', events = []\<rparr>,
            \<lparr>pluginResource_id = ''b'', pluginResource_name = ''B'', events = []\<rparr>] of
      Some (Inr tbl) \<Rightarrow> rows tbl = [] \<and> map col_id (columns tbl) = [''x'', ''a'']
    | _ \<Rightarrow> False)"
  by (simp add: addPointInTimeEventsLayersToTable_def addMissingRowsToTableBounds_def
      getXAxisId_def extendStart_def extendEnd_def processVisLayer_def visLayerColumn_def Let_def)

text \<open>
  C5. With exactly one row the row's field for the first event set is the number of its
  events (3 here), but the iteration does not go on to the next event set: the result has
  neither a column nor a field for the second set \<open>b\<close>.
\<close>

theorem single_row_collapse_stops_iteration:
  "addPointInTimeEventsLayersToTable 1
     \<lparr>columns = [\<lparr>col_id = ''x'', col_name = ''time'', meta_type = None\<rparr>],
      rows = [[''x'' \<mapsto> 5]]\<rparr>
     \<lparr>x_label = ''time'', intervalMillis = 10, bounds_min = 5, bounds_max = 5\<rparr>
     [\<lparr>pluginResource_id = ''a'', pluginResource_name = ''A'',
       events = [\<lparr>timestamp = 1\<rparr>, \<lparr>timestamp = 2\<rparr>, \<lparr>timestamp = 3\<rparr>]\<rparr>,
      \<lparr>pluginResource_id = ''b'', pluginResource_name = ''B'',
       events = [\<lparr>timestamp = 7\<rparr>, \<lparr>timestamp = 8\<rparr>]\<rparr>] =
   Some (Inr \<lparr>columns = [\<lparr>col_id = ''x'', col_name = ''time'', meta_type = None\<rparr>,
                         visLayerColumn ''a'' ''A''],
              rows = [[''x'' \<mapsto> 5, ''a'' \<mapsto> 3]]\<rparr>)"
  by (simp add: addPointInTimeEventsLayersToTable_def addMissingRowsToTableBounds_def
      getXAxisId_def extendStart_def extendEnd_def processVisLayer_def Let_def)

section \<open>The axis column\<close>

lemma enableEventsInConfig_error: "enableEventsInConfig config = Inl e \<Longrightarrow> e = TypeError"
  by (auto simp: enableEventsInConfig_def split: option.splits json.splits)

text \<open>
  C10. \<open>getXAxisId\<close> needs a column whose name is the label of the x dimension. When
  there is one, it returns the id of a column with that name (the first). When there is
  none, it throws a TypeError, and so does each of the three exported helpers that call
  it, whatever their other arguments: none of them returns a table or a specification.
\<close>

theorem getXAxisId_requires_axis_column:
  "(list_ex (\<lambda>column. col_name column = x_label dims) (columns datatable) \<longrightarrow>
      (\<exists>column \<in> set (columns datatable).
         col_name column = x_label dims \<and>
         getXAxisId dims (columns datatable) = Inr (col_id column))) \<and>
   (\<not> list_ex (\<lambda>column. col_name column = x_label dims) (columns datatable) \<longrightarrow>
      getXAxisId dims (columns datatable) = Inl TypeError \<and>
      addMissingRowsToTableBounds fuel datatable dims = Some (Inl TypeError) \<and>
      addPointInTimeEventsLayersToTable fuel datatable dims visLayers = Some (Inl TypeError) \<and>
      addPointInTimeEventsLayersToSpec color conv datatable dims spec = Inl TypeError)"
proof (intro conjI impI)
  assume "list_ex (\<lambda>column. col_name column = x_label dims) (columns datatable)"
  then have "filter (\<lambda>column. col_name column = x_label dims) (columns datatable) \<noteq> []"
    by (simp add: list_ex_iff filter_empty_conv)
  then obtain c cs where f: "filter (\<lambda>column. col_name column = x_label dims) (columns datatable) = c # cs"
    by (cases "filter (\<lambda>column. col_name column = x_label dims) (columns datatable)") auto
  then have "c \<in> set (filter (\<lambda>column. col_name column = x_label dims) (columns datatable))"
    by simp
  then have "c \<in> set (columns datatable)" "col_name c = x_label dims" by simp_all
  moreover have "getXAxisId dims (columns datatable) = Inr (col_id c)"
    using f by (simp add: getXAxisId_def)
  ultimately show "\<exists>column \<in> set (columns datatable).
         col_name column = x_label dims \<and>
         getXAxisId dims (columns datatable) = Inr (col_id column)" by blast
next
  assume "\<not> list_ex (\<lambda>column. col_name column = x_label dims) (columns datatable)"
  then have "filter (\<lambda>column. col_name column = x_label dims) (columns datatable) = []"
    by (simp add: list_ex_iff filter_empty_conv)
  then have g: "getXAxisId dims (columns datatable) = Inl TypeError"
    by (simp add: getXAxisId_def)
  show "getXAxisId dims (columns datatable) = Inl TypeError" by (rule g)
  show m: "addMissingRowsToTableBounds fuel datatable dims = Some (Inl TypeError)"
    using g by (simp add: addMissingRowsToTableBounds_def)
  show "addPointInTimeEventsLayersToTable fuel datatable dims visLayers = Some (Inl TypeError)"
    using m by (simp add: addPointInTimeEventsLayersToTable_def)
  show "addPointInTimeEventsLayersToSpec color conv datatable dims spec = Inl TypeError"
  proof (cases "enableEventsInConfig (spec ''config'')")
    case (Inl e)
    then have "e = TypeError" by (rule enableEventsInConfig_error)
    then show ?thesis using Inl by (simp add: addPointInTimeEventsLayersToSpec_def)
  next
    case (Inr c)
    then show ?thesis using g by (simp add: addPointInTimeEventsLayersToSpec_def)
  qed
qed

theorem getXAxisId_requires_axis_column_witness:
  "getXAxisId \<lparr>x_label = ''time'', intervalMillis = 10, bounds_min = 0, bounds_max = 20\<rparr>
     [\<lparr>col_id = ''col-0'', col_name = ''time'', meta_type = None\<rparr>,
      \<lparr>col_id = ''col-1'', col_name = ''count'', meta_type = None\<rparr>] = Inr ''col-0'' \<and>
   getXAxisId \<lparr>x_label = ''time'', intervalMillis = 10, bounds_min = 0, bounds_max = 20\<rparr>
     [\<lparr>col_id = ''col-1'', col_name = ''count'', meta_type = None\<rparr>] = Inl TypeError \<and>
   addMissingRowsToTableBounds 5
     \<lparr>columns = [\<lparr>col_id = ''col-1'', col_name = ''count'', meta_type = None\<rparr>], rows = []\<rparr>
     \<lparr>x_label = ''time'', intervalMillis = 10, bounds_min = 0, bounds_max = 20\<rparr> =
     Some (Inl TypeError) \<and>
   addPointInTimeEventsLayersToTable 5
     \<lparr>columns = [\<lparr>col_id = ''col-1'', col_name = ''count'', meta_type = None\<rparr>], rows = []\<rparr>
     \<lparr>x_label = ''time'', intervalMillis = 10, bounds_min = 0, bounds_max = 20\<rparr> [] =
     Some (Inl TypeError) \<and>
   addPointInTimeEventsLayersToSpec ''#FF0000'' (\<lambda>t. JNull)
     \<lparr>columns = [\<lparr>col_id = ''col-1'', col_name = ''count'', meta_type = None\<rparr>], rows = []\<rparr>
     \<lparr>x_label = ''time'', intervalMillis = 10, bounds_min = 0, bounds_max = 20\<rparr>
     [''config'' \<mapsto> obj [], ''layer'' \<mapsto> JArr []] = Inl TypeError"
  using getXAxisId_requires_axis_column
    [of "\<lparr>x_label = ''time'', intervalMillis = 10, bounds_min = 0, bounds_max = 20\<rparr>"
        "\<lparr>columns = [\<lparr>col_id = ''col-0'', col_name = ''time'', meta_type = None\<rparr>,
                      \<lparr>col_id = ''col-1'', col_name = ''count'', meta_type = None\<rparr>], rows = []\<rparr>"]
    getXAxisId_requires_axis_column
    [of "\<lparr>x_label = ''time'', intervalMillis = 10, bounds_min = 0, bounds_max = 20\<rparr>"
        "\<lparr>columns = [\<lparr>col_id = ''col-1'', col_name = ''count'', meta_type = None\<rparr>], rows = []\<rparr>"
        5 "[]" "''#FF0000''" "\<lambda>t. JNull" "[''config'' \<mapsto> obj [], ''layer'' \<mapsto> JArr []]"]
  by auto

section \<open>The store model against the value model\<close>

lemma rowAt_Some_iff: "rowAt h p = Some m \<longleftrightarrow> p < length h \<and> h ! p = RowObj m"
  by (auto simp: rowAt_def lookup_def split: option.splits obj.splits if_splits)

lemma rows_related_preserved:
  assumes rel: "map (rowAt h) rs = map Some ms"
    and ra: "ra < length h" "h ! ra = RowsObj rs0"
    and len: "length h \<le> length h2"
    and same: "\<forall>p<length h. p \<noteq> ra \<longrightarrow> h2 ! p = h ! p"
  shows "map (rowAt h2) rs = map Some ms"
proof (rule nth_equalityI)
  show "length (map (rowAt h2) rs) = length (map Some ms)"
    using rel by (metis length_map)
next
  fix i assume "i < length (map (rowAt h2) rs)"
  then have i: "i < length rs" by simp
  have l: "length rs = length ms" using rel by (metis length_map)
  have "map (rowAt h) rs ! i = map Some ms ! i" using rel by simp
  then have "rowAt h (rs ! i) = Some (ms ! i)" using i l by simp
  then have p: "rs ! i < length h" "h ! (rs ! i) = RowObj (ms ! i)"
    by (simp_all add: rowAt_Some_iff)
  then have "rs ! i \<noteq> ra" using ra(2) by auto
  then have "h2 ! (rs ! i) = RowObj (ms ! i)" using same p by simp
  then have "rowAt h2 (rs ! i) = Some (ms ! i)" using p(1) len by (simp add: rowAt_Some_iff)
  then show "map (rowAt h2) rs ! i = map Some ms ! i" using i l by simp
qed

lemma unshift_fresh:
  assumes "ra < length h" "h ! ra = RowsObj rs"
  shows "unshift ra (length h) (h @ [ob]) = (h @ [ob])[ra := RowsObj (length h # rs)]"
  using assms by (simp add: unshift_def lookup_def nth_append)

lemma push_fresh:
  assumes "ra < length h" "h ! ra = RowsObj rs"
  shows "push ra (length h) (h @ [ob]) = (h @ [ob])[ra := RowsObj (rs @ [length h])]"
  using assms by (simp add: push_def lookup_def nth_append)

lemma step_store:
  assumes ra: "ra < length h" "h ! ra = RowsObj rs"
    and rel: "map (rowAt h) rs = map Some ms"
    and h2: "h2 = (h @ [RowObj m])[ra := RowsObj rs']"
  shows "ra < length h2" "h2 ! ra = RowsObj rs'" "length h \<le> length h2"
    "\<forall>p<length h. p \<noteq> ra \<longrightarrow> h2 ! p = h ! p"
    "map (rowAt h2) rs = map Some ms" "rowAt h2 (length h) = Some m"
proof -
  show a: "ra < length h2" using ra h2 by simp
  show "h2 ! ra = RowsObj rs'" using ra h2 by simp
  show b: "length h \<le> length h2" using h2 by simp
  show c: "\<forall>p<length h. p \<noteq> ra \<longrightarrow> h2 ! p = h ! p" using h2 by (simp add: nth_append)
  show "map (rowAt h2) rs = map Some ms"
    by (rule rows_related_preserved[OF rel ra b c])
  show "rowAt h2 (length h) = Some m" using h2 ra by (simp add: rowAt_Some_iff)
qed

lemma prependLoopS_sim:
  assumes "ra < length h" "h ! ra = RowsObj rs" "map (rowAt h) rs = map Some ms"
  shows "(prependLoopS fuel x iv cs cur ra h = None \<longrightarrow> prependLoop fuel x iv cs cur ms = None) \<and>
         (\<forall>h'. prependLoopS fuel x iv cs cur ra h = Some h' \<longrightarrow>
            length h \<le> length h' \<and> (\<forall>p<length h. p \<noteq> ra \<longrightarrow> h' ! p = h ! p) \<and>
            (\<exists>rs' ms'. h' ! ra = RowsObj rs' \<and> map (rowAt h') rs' = map Some ms' \<and>
               prependLoop fuel x iv cs cur ms = Some ms'))"
  using assms
proof (induction fuel arbitrary: cur h rs ms)
  case 0
  then show ?case by simp
next
  case (Suc fuel)
  show ?case
  proof (cases "cs < cur")
    case False
    have "prependLoopS (Suc fuel) x iv cs cur ra h = Some h"
      "prependLoop (Suc fuel) x iv cs cur ms = Some ms" using False by simp_all
    then show ?thesis using Suc.prems by simp
  next
    case True
    let ?m = "axisRow x (cur - iv)"
    let ?h2 = "(h @ [RowObj ?m])[ra := RowsObj (length h # rs)]"
    note st = step_store[OF Suc.prems(1,2,3), of ?h2 ?m "length h # rs", OF refl]
    have rel2: "map (rowAt ?h2) (length h # rs) = map Some (?m # ms)"
      using st(5,6) by simp
    have eqS: "prependLoopS (Suc fuel) x iv cs cur ra h =
               prependLoopS fuel x iv cs (cur - iv) ra ?h2"
      using True unshift_fresh[OF Suc.prems(1,2)] by (simp add: alloc_def Let_def)
    have eqP: "prependLoop (Suc fuel) x iv cs cur ms = prependLoop fuel x iv cs (cur - iv) (?m # ms)"
      using True by (simp add: Let_def)
    note ih = Suc.IH[OF st(1,2) rel2, of "cur - iv"]
    show ?thesis
      unfolding eqS eqP
    proof (intro conjI allI impI)
      assume "prependLoopS fuel x iv cs (cur - iv) ra ?h2 = None"
      then show "prependLoop fuel x iv cs (cur - iv) (?m # ms) = None" using ih by blast
    next
      fix h' assume r: "prependLoopS fuel x iv cs (cur - iv) ra ?h2 = Some h'"
      with ih have a: "length ?h2 \<le> length h'" "\<forall>p<length ?h2. p \<noteq> ra \<longrightarrow> h' ! p = ?h2 ! p"
        and b: "\<exists>rs' ms'. h' ! ra = RowsObj rs' \<and> map (rowAt h') rs' = map Some ms' \<and>
               prependLoop fuel x iv cs (cur - iv) (?m # ms) = Some ms'" by blast+
      show "length h \<le> length h'" using a(1) st(3) by linarith
      show "\<And>p. p < length h \<Longrightarrow> p \<noteq> ra \<Longrightarrow> h' ! p = h ! p"
      proof -
        fix p assume p: "p < length h" "p \<noteq> ra"
        then have "p < length ?h2" using st(3) by linarith
        then have "h' ! p = ?h2 ! p" using a(2) p(2) by blast
        also have "\<dots> = h ! p" using st(4) p by blast
        finally show "h' ! p = h ! p" .
      qed
      show "\<exists>rs' ms'. h' ! ra = RowsObj rs' \<and> map (rowAt h') rs' = map Some ms' \<and>
               prependLoop fuel x iv cs (cur - iv) (?m # ms) = Some ms'" by (rule b)
    qed
  qed
qed

lemma appendLoopS_sim:
  assumes "ra < length h" "h ! ra = RowsObj rs" "map (rowAt h) rs = map Some ms"
  shows "(appendLoopS fuel x iv ce cur ra h = None \<longrightarrow> appendLoop fuel x iv ce cur ms = None) \<and>
         (\<forall>h'. appendLoopS fuel x iv ce cur ra h = Some h' \<longrightarrow>
            length h \<le> length h' \<and> (\<forall>p<length h. p \<noteq> ra \<longrightarrow> h' ! p = h ! p) \<and>
            (\<exists>rs' ms'. h' ! ra = RowsObj rs' \<and> map (rowAt h') rs' = map Some ms' \<and>
               appendLoop fuel x iv ce cur ms = Some ms'))"
  using assms
proof (induction fuel arbitrary: cur h rs ms)
  case 0
  then show ?case by simp
next
  case (Suc fuel)
  show ?case
  proof (cases "cur < ce")
    case False
    have "appendLoopS (Suc fuel) x iv ce cur ra h = Some h"
      "appendLoop (Suc fuel) x iv ce cur ms = Some ms" using False by simp_all
    then show ?thesis using Suc.prems by simp
  next
    case True
    let ?m = "axisRow x (cur + iv)"
    let ?h2 = "(h @ [RowObj ?m])[ra := RowsObj (rs @ [length h])]"
    note st = step_store[OF Suc.prems(1,2,3), of ?h2 ?m "rs @ [length h]", OF refl]
    have rel2: "map (rowAt ?h2) (rs @ [length h]) = map Some (ms @ [?m])"
      using st(5,6) by simp
    have eqS: "appendLoopS (Suc fuel) x iv ce cur ra h =
               appendLoopS fuel x iv ce (cur + iv) ra ?h2"
      using True push_fresh[OF Suc.prems(1,2)] by (simp add: alloc_def Let_def)
    have eqP: "appendLoop (Suc fuel) x iv ce cur ms = appendLoop fuel x iv ce (cur + iv) (ms @ [?m])"
      using True by (simp add: Let_def)
    note ih = Suc.IH[OF st(1,2) rel2, of "cur + iv"]
    show ?thesis
      unfolding eqS eqP
    proof (intro conjI allI impI)
      assume "appendLoopS fuel x iv ce (cur + iv) ra ?h2 = None"
      then show "appendLoop fuel x iv ce (cur + iv) (ms @ [?m]) = None" using ih by blast
    next
      fix h' assume r: "appendLoopS fuel x iv ce (cur + iv) ra ?h2 = Some h'"
      with ih have a: "length ?h2 \<le> length h'" "\<forall>p<length ?h2. p \<noteq> ra \<longrightarrow> h' ! p = ?h2 ! p"
        and b: "\<exists>rs' ms'. h' ! ra = RowsObj rs' \<and> map (rowAt h') rs' = map Some ms' \<and>
               appendLoop fuel x iv ce (cur + iv) (ms @ [?m]) = Some ms'" by blast+
      show "length h \<le> length h'" using a(1) st(3) by linarith
      show "\<And>p. p < length h \<Longrightarrow> p \<noteq> ra \<Longrightarrow> h' ! p = h ! p"
      proof -
        fix p assume p: "p < length h" "p \<noteq> ra"
        then have "p < length ?h2" using st(3) by linarith
        then have "h' ! p = ?h2 ! p" using a(2) p(2) by blast
        also have "\<dots> = h ! p" using st(4) p by blast
        finally show "h' ! p = h ! p" .
      qed
      show "\<exists>rs' ms'. h' ! ra = RowsObj rs' \<and> map (rowAt h') rs' = map Some ms' \<and>
               appendLoop fuel x iv ce (cur + iv) (ms @ [?m]) = Some ms'" by (rule b)
    qed
  qed
qed

lemma fillLoopS_sim:
  assumes "ra < length h" "h ! ra = RowsObj rs" "map (rowAt h) rs = map Some ms"
  shows "(fillLoopS fuel x iv ce cur ra h = None \<longrightarrow> fillLoop fuel x iv ce cur ms = None) \<and>
         (\<forall>h'. fillLoopS fuel x iv ce cur ra h = Some h' \<longrightarrow>
            length h \<le> length h' \<and> (\<forall>p<length h. p \<noteq> ra \<longrightarrow> h' ! p = h ! p) \<and>
            (\<exists>rs' ms'. h' ! ra = RowsObj rs' \<and> map (rowAt h') rs' = map Some ms' \<and>
               fillLoop fuel x iv ce cur ms = Some ms'))"
  using assms
proof (induction fuel arbitrary: cur h rs ms)
  case 0
  then show ?case by simp
next
  case (Suc fuel)
  show ?case
  proof (cases "cur \<le> ce")
    case False
    have "fillLoopS (Suc fuel) x iv ce cur ra h = Some h"
      "fillLoop (Suc fuel) x iv ce cur ms = Some ms" using False by simp_all
    then show ?thesis using Suc.prems by simp
  next
    case True
    let ?m = "axisRow x cur"
    let ?h2 = "(h @ [RowObj ?m])[ra := RowsObj (rs @ [length h])]"
    note st = step_store[OF Suc.prems(1,2,3), of ?h2 ?m "rs @ [length h]", OF refl]
    have rel2: "map (rowAt ?h2) (rs @ [length h]) = map Some (ms @ [?m])"
      using st(5,6) by simp
    have eqS: "fillLoopS (Suc fuel) x iv ce cur ra h = fillLoopS fuel x iv ce (cur + iv) ra ?h2"
      using True push_fresh[OF Suc.prems(1,2)] by (simp add: alloc_def)
    have eqP: "fillLoop (Suc fuel) x iv ce cur ms = fillLoop fuel x iv ce (cur + iv) (ms @ [?m])"
      using True by simp
    note ih = Suc.IH[OF st(1,2) rel2, of "cur + iv"]
    show ?thesis
      unfolding eqS eqP
    proof (intro conjI allI impI)
      assume "fillLoopS fuel x iv ce (cur + iv) ra ?h2 = None"
      then show "fillLoop fuel x iv ce (cur + iv) (ms @ [?m]) = None" using ih by blast
    next
      fix h' assume r: "fillLoopS fuel x iv ce (cur + iv) ra ?h2 = Some h'"
      with ih have a: "length ?h2 \<le> length h'" "\<forall>p<length ?h2. p \<noteq> ra \<longrightarrow> h' ! p = ?h2 ! p"
        and b: "\<exists>rs' ms'. h' ! ra = RowsObj rs' \<and> map (rowAt h') rs' = map Some ms' \<and>
               fillLoop fuel x iv ce (cur + iv) (ms @ [?m]) = Some ms'" by blast+
      show "length h \<le> length h'" using a(1) st(3) by linarith
      show "\<And>p. p < length h \<Longrightarrow> p \<noteq> ra \<Longrightarrow> h' ! p = h ! p"
      proof -
        fix p assume p: "p < length h" "p \<noteq> ra"
        then have "p < length ?h2" using st(3) by linarith
        then have "h' ! p = ?h2 ! p" using a(2) p(2) by blast
        also have "\<dots> = h ! p" using st(4) p by blast
        finally show "h' ! p = h ! p" .
      qed
      show "\<exists>rs' ms'. h' ! ra = RowsObj rs' \<and> map (rowAt h') rs' = map Some ms' \<and>
               fillLoop fuel x iv ce (cur + iv) (ms @ [?m]) = Some ms'" by (rule b)
    qed
  qed
qed

lemma cloneRows_eq:
  "cloneRows ms h = ([length h..<length h + length ms], h @ map RowObj ms)"
proof (induction ms arbitrary: h)
  case Nil
  then show ?case by simp
next
  case (Cons m ms)
  have "[length h..<Suc (length h + length ms)] =
        length h # [Suc (length h)..<Suc (length h + length ms)]"
    by (rule upt_conv_Cons) simp
  then show ?case using Cons[of "h @ [RowObj m]"] by (simp add: alloc_def del: upt_Suc)
qed

lemma rows_related_clone:
  "map (rowAt (h @ map RowObj ms @ ext)) [length h..<length h + length ms] = map Some ms"
proof (rule nth_equalityI)
  show "length (map (rowAt (h @ map RowObj ms @ ext)) [length h..<length h + length ms]) =
        length (map Some ms)" by simp
next
  fix i assume "i < length (map (rowAt (h @ map RowObj ms @ ext)) [length h..<length h + length ms])"
  then have i: "i < length ms" by simp
  then have "rowAt (h @ map RowObj ms @ ext) (length h + i) = Some (ms ! i)"
    by (simp add: rowAt_Some_iff nth_append)
  then show "map (rowAt (h @ map RowObj ms @ ext)) [length h..<length h + length ms] ! i =
             map Some ms ! i" using i by simp
qed

lemma readTable_Some_iff:
  "readTable h a = Some dt \<longleftrightarrow>
     (\<exists>ra rs. a < length h \<and> h ! a = TableObj (columns dt) ra \<and> ra < length h \<and>
        h ! ra = RowsObj rs \<and> map (rowAt h) rs = map Some (rows dt))"
proof
  assume r: "readTable h a = Some dt"
  then obtain cols ra where a: "a < length h" "h ! a = TableObj cols ra"
    by (auto simp: readTable_def lookup_def split: option.splits obj.splits if_splits)
  with r obtain rs where ra: "ra < length h" "h ! ra = RowsObj rs"
    by (auto simp: readTable_def lookup_def split: option.splits obj.splits if_splits)
  from r a ra have ok: "list_all (\<lambda>r. rowAt h r \<noteq> None) rs"
    and dt: "dt = \<lparr>columns = cols, rows = map (\<lambda>r. the (rowAt h r)) rs\<rparr>"
    by (auto simp: readTable_def lookup_def split: if_splits)
  have "map (rowAt h) rs = map Some (map (\<lambda>r. the (rowAt h r)) rs)"
    using ok by (induction rs) auto
  then show "\<exists>ra rs. a < length h \<and> h ! a = TableObj (columns dt) ra \<and> ra < length h \<and>
        h ! ra = RowsObj rs \<and> map (rowAt h) rs = map Some (rows dt)"
    using a ra dt by auto
next
  assume "\<exists>ra rs. a < length h \<and> h ! a = TableObj (columns dt) ra \<and> ra < length h \<and>
        h ! ra = RowsObj rs \<and> map (rowAt h) rs = map Some (rows dt)"
  then obtain ra rs where f: "a < length h" "h ! a = TableObj (columns dt) ra" "ra < length h"
        "h ! ra = RowsObj rs" "map (rowAt h) rs = map Some (rows dt)" by blast
  have "list_all (\<lambda>r. rowAt h r \<noteq> None) rs \<and> map (\<lambda>r. the (rowAt h r)) rs = rows dt"
    using f(5)
  proof (induction rs arbitrary: dt)
    case Nil
    then show ?case by simp
  next
    case (Cons r rs)
    then obtain m ms where ms: "rows dt = m # ms" by (cases "rows dt") auto
    with Cons.prems have "rowAt h r = Some m" "map (rowAt h) rs = map Some (rows (dt\<lparr>rows := ms\<rparr>))"
      by simp_all
    with Cons.IH[of "dt\<lparr>rows := ms\<rparr>"] ms show ?case by simp
  qed
  then show "readTable h a = Some dt" using f by (simp add: readTable_def lookup_def)
qed

lemma cloneDeep_result:
  assumes "readTable h a = Some dt"
  shows "cloneDeep h a =
     Some (Suc (length h + length (rows dt)),
           h @ map RowObj (rows dt) @
             [RowsObj [length h..<length h + length (rows dt)],
              TableObj (columns dt) (length h + length (rows dt))])"
  using assms by (simp add: cloneDeep_def cloneRows_eq alloc_def)

lemma extendStartS_sim:
  assumes "ra < length h" "h ! ra = RowsObj rs" "map (rowAt h) rs = map Some ms"
  shows "(extendStartS fuel x iv cs ((ms ! 0) x) ra h = None \<longrightarrow> extendStart fuel x iv cs ms = None) \<and>
         (\<forall>h'. extendStartS fuel x iv cs ((ms ! 0) x) ra h = Some h' \<longrightarrow>
            length h \<le> length h' \<and> (\<forall>p<length h. p \<noteq> ra \<longrightarrow> h' ! p = h ! p) \<and>
            (\<exists>rs' ms'. h' ! ra = RowsObj rs' \<and> map (rowAt h') rs' = map Some ms' \<and>
               extendStart fuel x iv cs ms = Some ms'))"
proof (cases "(ms ! 0) x")
  case None
  then show ?thesis using assms by (simp add: extendStartS_def extendStart_def)
next
  case (Some cur)
  then show ?thesis
    using prependLoopS_sim[OF assms, of fuel x iv cs cur]
    by (simp add: extendStartS_def extendStart_def)
qed

lemma extendEndS_sim:
  assumes "ra < length h" "h ! ra = RowsObj rs" "map (rowAt h) rs = map Some ms"
  shows "(extendEndS fuel x iv ce d ra h = None \<longrightarrow> extendEnd fuel x iv ce d ms = None) \<and>
         (\<forall>h'. extendEndS fuel x iv ce d ra h = Some h' \<longrightarrow>
            length h \<le> length h' \<and> (\<forall>p<length h. p \<noteq> ra \<longrightarrow> h' ! p = h ! p) \<and>
            (\<exists>rs' ms'. h' ! ra = RowsObj rs' \<and> map (rowAt h') rs' = map Some ms' \<and>
               extendEnd fuel x iv ce d ms = Some ms'))"
proof (cases d)
  case None
  then show ?thesis using assms by (simp add: extendEndS_def extendEnd_def)
next
  case (Some cur)
  then show ?thesis
    using appendLoopS_sim[OF assms, of fuel x iv ce cur]
    by (simp add: extendEndS_def extendEnd_def)
qed

lemma frame_trans:
  assumes "length h1 \<le> length h2" "\<forall>p<length h1. p \<noteq> ra \<longrightarrow> h2 ! p = h1 ! p"
    and "length h2 \<le> length h3" "\<forall>p<length h2. p \<noteq> ra \<longrightarrow> h3 ! p = h2 ! p"
  shows "length h1 \<le> length h3" "\<forall>p<length h1. p \<noteq> ra \<longrightarrow> h3 ! p = h1 ! p"
proof -
  show "length h1 \<le> length h3" using assms(1,3) by linarith
  show "\<forall>p<length h1. p \<noteq> ra \<longrightarrow> h3 ! p = h1 ! p"
  proof (intro allI impI)
    fix p assume p: "p < length h1" "p \<noteq> ra"
    then have "p < length h2" using assms(1) by linarith
    then have "h3 ! p = h2 ! p" using assms(4) p(2) by blast
    also have "\<dots> = h1 ! p" using assms(2) p by blast
    finally show "h3 ! p = h1 ! p" .
  qed
qed

lemma store_result:
  assumes fr: "length h1 \<le> length h'" "\<forall>p<length h1. p \<noteq> ra \<longrightarrow> h' ! p = h1 ! p"
    and arr: "h' ! ra = RowsObj rs'" "map (rowAt h') rs' = map Some ms'"
    and tb: "a1 < length h1" "h1 ! a1 = TableObj cols ra" "ra < length h1" "a1 \<noteq> ra"
    and old: "length h \<le> ra" "length h \<le> length h1" "\<forall>p<length h. h1 ! p = h ! p"
  shows "readTable h' a1 = Some \<lparr>columns = cols, rows = ms'\<rparr>" "take (length h) h' = h"
proof -
  have "h' ! a1 = TableObj cols ra" using fr(2) tb(1,2,4) by simp
  then show "readTable h' a1 = Some \<lparr>columns = cols, rows = ms'\<rparr>"
    unfolding readTable_Some_iff using arr tb(1,3) fr(1) by auto
  show "take (length h) h' = h"
  proof (rule nth_equalityI)
    show "length (take (length h) h') = length h" using old(2) fr(1) by simp
  next
    fix p assume "p < length (take (length h) h')"
    then have p: "p < length h" by simp
    then have "p < length h1" "p \<noteq> ra" using old(1,2) by linarith+
    then have "h' ! p = h1 ! p" using fr(2) by blast
    then show "take (length h) h' ! p = h ! p" using p old(3) by simp
  qed
qed

lemma addMissingS_sim:
  assumes rt: "readTable h a = Some dt"
  shows "(addMissingRowsToTableBoundsS fuel h a dims = None \<longrightarrow>
            addMissingRowsToTableBounds fuel dt dims = None) \<and>
         (\<forall>e. addMissingRowsToTableBoundsS fuel h a dims = Some (Inl e) \<longrightarrow>
            addMissingRowsToTableBounds fuel dt dims = Some (Inl e)) \<and>
         (\<forall>a' h'. addMissingRowsToTableBoundsS fuel h a dims = Some (Inr (a', h')) \<longrightarrow>
            length h \<le> a' \<and> take (length h) h' = h \<and>
            (\<exists>tbl. readTable h' a' = Some tbl \<and>
               addMissingRowsToTableBounds fuel dt dims = Some (Inr tbl)))"
proof -
  define ra where "ra = length h + length (rows dt)"
  define a1 where "a1 = Suc ra"
  define rs where "rs = [length h..<length h + length (rows dt)]"
  define h1 where "h1 = h @ map RowObj (rows dt) @ [RowsObj rs, TableObj (columns dt) ra]"
  have cd: "cloneDeep h a = Some (a1, h1)"
    using cloneDeep_result[OF rt] by (simp add: ra_def a1_def rs_def h1_def)
  have l1: "length h1 = Suc (Suc ra)" by (simp add: h1_def ra_def)
  have tb: "a1 < length h1" "h1 ! a1 = TableObj (columns dt) ra" "ra < length h1" "a1 \<noteq> ra"
    by (simp_all add: h1_def ra_def a1_def nth_append)
  have arr: "h1 ! ra = RowsObj rs" by (simp add: h1_def ra_def nth_append)
  have rel: "map (rowAt h1) rs = map Some (rows dt)"
    unfolding h1_def rs_def by (rule rows_related_clone)
  have old: "length h \<le> ra" "length h \<le> length h1" "\<forall>p<length h. h1 ! p = h ! p"
    by (simp_all add: h1_def ra_def nth_append)
  have lrs: "length rs = length (rows dt)" by (simp add: rs_def)
  have a1ge: "length h \<le> a1" by (simp add: a1_def ra_def)
  show ?thesis
  proof (cases "getXAxisId dims (columns dt)")
    case (Inl e)
    then show ?thesis using cd tb
      by (simp add: addMissingRowsToTableBoundsS_def addMissingRowsToTableBounds_def lookup_def)
  next
    case (Inr x)
    show ?thesis
    proof (cases "rows dt = []")
      case True
      then have rse: "rs = []" using lrs by simp
      have S: "addMissingRowsToTableBoundsS fuel h a dims =
               (case fillLoopS fuel x (intervalMillis dims) (bounds_max dims) (bounds_min dims) ra h1 of
                  None \<Rightarrow> None | Some h2 \<Rightarrow> Some (Inr (a1, h2)))"
        using cd tb arr rse Inr by (simp add: addMissingRowsToTableBoundsS_def lookup_def)
      have P: "addMissingRowsToTableBounds fuel dt dims =
               (case fillLoop fuel x (intervalMillis dims) (bounds_max dims) (bounds_min dims) [] of
                  None \<Rightarrow> None | Some ms \<Rightarrow> Some (Inr (dt\<lparr>rows := ms\<rparr>)))"
        using True Inr by (simp add: addMissingRowsToTableBounds_def)
      have rel0: "map (rowAt h1) rs = map Some []" using rel True by simp
      note sim = fillLoopS_sim[OF tb(3) arr rel0, of fuel x "intervalMillis dims"
          "bounds_max dims" "bounds_min dims"]
      show ?thesis
      proof (cases "fillLoopS fuel x (intervalMillis dims) (bounds_max dims) (bounds_min dims) ra h1")
        case None
        then show ?thesis using sim S P by simp
      next
        case (Some h2)
        with sim obtain rs' ms' where fr: "length h1 \<le> length h2"
          "\<forall>p<length h1. p \<noteq> ra \<longrightarrow> h2 ! p = h1 ! p" and
          out: "h2 ! ra = RowsObj rs'" "map (rowAt h2) rs' = map Some ms'"
          "fillLoop fuel x (intervalMillis dims) (bounds_max dims) (bounds_min dims) [] = Some ms'"
          by blast
        note res = store_result[OF fr out(1,2) tb old]
        have "dt\<lparr>rows := ms'\<rparr> = \<lparr>columns = columns dt, rows = ms'\<rparr>" by simp
        then show ?thesis using S P Some out(3) res a1ge by simp
      qed
    next
      case False
      then have rsne: "rs \<noteq> []" using lrs by auto
      have i0: "0 < length rs" "length rs - 1 < length rs" using rsne by simp_all
      have "map (rowAt h1) rs ! 0 = map Some (rows dt) ! 0"
        "map (rowAt h1) rs ! (length rs - 1) = map Some (rows dt) ! (length rs - 1)"
        using rel by simp_all
      then have d: "rowAt h1 (rs ! 0) = Some (rows dt ! 0)"
        "rowAt h1 (rs ! (length rs - 1)) = Some (rows dt ! (length (rows dt) - 1))"
        using i0 lrs by simp_all
      let ?de = "(rows dt ! (length (rows dt) - 1)) x"
      have S: "addMissingRowsToTableBoundsS fuel h a dims =
               (case extendStartS fuel x (intervalMillis dims) (bounds_min dims)
                       ((rows dt ! 0) x) ra h1 of
                  None \<Rightarrow> None
                | Some h2 \<Rightarrow>
                    (case extendEndS fuel x (intervalMillis dims) (bounds_max dims) ?de ra h2 of
                       None \<Rightarrow> None
                     | Some h3 \<Rightarrow> Some (Inr (a1, h3))))"
        using cd tb arr rsne Inr d
        by (simp add: addMissingRowsToTableBoundsS_def lookup_def Let_def del: One_nat_def)
      have P: "addMissingRowsToTableBounds fuel dt dims =
               (case extendStart fuel x (intervalMillis dims) (bounds_min dims) (rows dt) of
                  None \<Rightarrow> None
                | Some ms1 \<Rightarrow>
                    (case extendEnd fuel x (intervalMillis dims) (bounds_max dims) ?de ms1 of
                       None \<Rightarrow> None
                     | Some ms2 \<Rightarrow> Some (Inr (dt\<lparr>rows := ms2\<rparr>))))"
        using False Inr by (simp add: addMissingRowsToTableBounds_def Let_def del: One_nat_def)
      note sim1 = extendStartS_sim[OF tb(3) arr rel, of fuel x "intervalMillis dims" "bounds_min dims"]
      show ?thesis
      proof (cases "extendStartS fuel x (intervalMillis dims) (bounds_min dims) ((rows dt ! 0) x) ra h1")
        case None
        then show ?thesis using sim1 S P by simp
      next
        case (Some h2)
        with sim1 obtain rs1 ms1 where fr1: "length h1 \<le> length h2"
          "\<forall>p<length h1. p \<noteq> ra \<longrightarrow> h2 ! p = h1 ! p" and
          out1: "h2 ! ra = RowsObj rs1" "map (rowAt h2) rs1 = map Some ms1"
          "extendStart fuel x (intervalMillis dims) (bounds_min dims) (rows dt) = Some ms1"
          by blast
        have ra2: "ra < length h2" using tb(3) fr1(1) by linarith
        note sim2 = extendEndS_sim[OF ra2 out1(1,2), of fuel x "intervalMillis dims"
            "bounds_max dims" ?de]
        show ?thesis
        proof (cases "extendEndS fuel x (intervalMillis dims) (bounds_max dims) ?de ra h2")
          case None
          then show ?thesis using sim2 S P Some out1(3) by simp
        next
          case (Some h3)
          with sim2 obtain rs2 ms2 where fr2: "length h2 \<le> length h3"
            "\<forall>p<length h2. p \<noteq> ra \<longrightarrow> h3 ! p = h2 ! p" and
            out2: "h3 ! ra = RowsObj rs2" "map (rowAt h3) rs2 = map Some ms2"
            "extendEnd fuel x (intervalMillis dims) (bounds_max dims) ?de ms1 = Some ms2"
            by blast
          note fr = frame_trans[OF fr1 fr2]
          note res = store_result[OF fr out2(1,2) tb old]
          have "dt\<lparr>rows := ms2\<rparr> = \<lparr>columns = columns dt, rows = ms2\<rparr>" by simp
          then show ?thesis
            using S P \<open>extendStartS fuel x (intervalMillis dims) (bounds_min dims)
                        ((rows dt ! 0) x) ra h1 = Some h2\<close> Some out1(3) out2(3) res a1ge
            by simp
        qed
      qed
    qed
  qed
qed

lemma readTable_prefix:
  assumes "take (length h) h' = h" "readTable h a = Some dt"
  shows "readTable h' a = Some dt"
proof -
  from assms(2) obtain ra rs where f: "a < length h" "h ! a = TableObj (columns dt) ra"
    "ra < length h" "h ! ra = RowsObj rs" "map (rowAt h) rs = map Some (rows dt)"
    unfolding readTable_Some_iff by blast
  have h': "h' = h @ drop (length h) h'" using assms(1) by (metis append_take_drop_id)
  have n: "p < length h \<Longrightarrow> h' ! p = h ! p \<and> p < length h'" for p
    by (subst (1 2) h') (simp add: nth_append)
  have r: "rowAt h p = Some m \<Longrightarrow> rowAt h' p = Some m" for p m
    using n[of p] by (simp add: rowAt_Some_iff)
  have "map (rowAt h') rs = map Some (rows dt)"
  proof (rule nth_equalityI)
    show "length (map (rowAt h') rs) = length (map Some (rows dt))"
      using f(5) by (metis length_map)
  next
    fix i assume "i < length (map (rowAt h') rs)"
    then have i: "i < length rs" by simp
    have l: "length rs = length (rows dt)" using f(5) by (metis length_map)
    have "map (rowAt h) rs ! i = map Some (rows dt) ! i" using f(5) by simp
    then have "rowAt h (rs ! i) = Some (rows dt ! i)" using i l by simp
    then have "rowAt h' (rs ! i) = Some (rows dt ! i)" by (rule r)
    then show "map (rowAt h') rs ! i = map Some (rows dt) ! i" using i l by simp
  qed
  then show ?thesis
    unfolding readTable_Some_iff using f n[of a] n[of ra] by auto
qed

text \<open>
  C7. Let the caller's reference \<open>a\<close> stand for the table \<open>dt\<close>, and let the call on
  the store return the reference \<open>a'\<close> and the store \<open>h'\<close>. Then \<open>a'\<close> stands for
  the table the value model returns: it has the columns of \<open>dt\<close>, and its rows are the
  rows of \<open>dt\<close>, unchanged and in their order, with rows holding only the axis field
  before the first and after the last of them. The caller's table is not modified: every
  object the store held before the call is the same after it, the reference \<open>a\<close> still
  stands for \<open>dt\<close>, and the returned reference is a new one.
\<close>

theorem addMissingRowsToTableBounds_frame:
  assumes "readTable h a = Some dt"
    and "addMissingRowsToTableBoundsS fuel h a dims = Some (Inr (a', h'))"
  shows "\<exists>x pre post tbl.
           getXAxisId dims (columns dt) = Inr x \<and>
           readTable h' a' = Some tbl \<and>
           addMissingRowsToTableBounds fuel dt dims = Some (Inr tbl) \<and>
           columns tbl = columns dt \<and>
           rows tbl = pre @ rows dt @ post \<and>
           (\<forall>r \<in> set pre \<union> set post. \<exists>t. r = axisRow x t) \<and>
           take (length h) h' = h \<and> readTable h' a = Some dt \<and> a' \<noteq> a"
proof -
  from addMissingS_sim[OF assms(1), of fuel dims] assms(2)
  obtain tbl where s: "length h \<le> a'" "take (length h) h' = h" "readTable h' a' = Some tbl"
    "addMissingRowsToTableBounds fuel dt dims = Some (Inr tbl)" by blast
  from addMissing_frame[OF s(4)] obtain x pre post where
    p: "getXAxisId dims (columns dt) = Inr x" "columns tbl = columns dt"
    "rows tbl = pre @ rows dt @ post" "\<forall>r \<in> set pre \<union> set post. \<exists>t. r = axisRow x t"
    by blast
  have "a < length h" using assms(1) unfolding readTable_Some_iff by blast
  then have "a' \<noteq> a" using s(1) by linarith
  moreover have "readTable h' a = Some dt" by (rule readTable_prefix[OF s(2) assms(1)])
  ultimately show ?thesis using s p by blast
qed

theorem addMissingRowsToTableBounds_frame_witness:
  "\<exists>a' h'. addMissingRowsToTableBoundsS 3
       [RowObj [''x'' \<mapsto> 30], RowsObj [0],
        TableObj [\<lparr>col_id = ''x'', col_name = ''time'', meta_type = None\<rparr>] 1]
       2 \<lparr>x_label = ''time'', intervalMillis = 10, bounds_min = 20, bounds_max = 40\<rparr> =
       Some (Inr (a', h')) \<and>
     a' \<noteq> 2 \<and>
     take 3 h' = [RowObj [''x'' \<mapsto> 30], RowsObj [0],
        TableObj [\<lparr>col_id = ''x'', col_name = ''time'', meta_type = None\<rparr>] 1] \<and>
     readTable h' 2 =
       Some \<lparr>columns = [\<lparr>col_id = ''x'', col_name = ''time'', meta_type = None\<rparr>],
             rows = [[''x'' \<mapsto> 30]]\<rparr> \<and>
     readTable h' a' =
       Some \<lparr>columns = [\<lparr>col_id = ''x'', col_name = ''time'', meta_type = None\<rparr>],
             rows = [axisRow ''x'' 20, [''x'' \<mapsto> 30], axisRow ''x'' 40]\<rparr>"
proof -
  let ?H = "[RowObj [''x'' \<mapsto> 30], RowsObj [0],
             TableObj [\<lparr>col_id = ''x'', col_name = ''time'', meta_type = None\<rparr>] 1]"
  let ?D = "\<lparr>x_label = ''time'', intervalMillis = 10, bounds_min = 20, bounds_max = 40\<rparr>"
  let ?T = "\<lparr>columns = [\<lparr>col_id = ''x'', col_name = ''time'', meta_type = None\<rparr>],
             rows = [[''x'' \<mapsto> 30]]\<rparr>"
  have rt: "readTable ?H 2 = Some ?T"
    by (simp add: readTable_def lookup_def rowAt_def)
  have "\<exists>a' h'. addMissingRowsToTableBoundsS 3 ?H 2 ?D = Some (Inr (a', h'))"
    using cloneDeep_result[OF rt]
    by (simp add: addMissingRowsToTableBoundsS_def alloc_def lookup_def
        getXAxisId_def rowAt_def extendStartS_def extendEndS_def unshift_def push_def
        numeral_3_eq_3 Let_def)
  then obtain a' h' where r: "addMissingRowsToTableBoundsS 3 ?H 2 ?D = Some (Inr (a', h'))"
    by blast
  have pure: "addMissingRowsToTableBounds 3 ?T ?D =
      Some (Inr \<lparr>columns = [\<lparr>col_id = ''x'', col_name = ''time'', meta_type = None\<rparr>],
             rows = [axisRow ''x'' 20, [''x'' \<mapsto> 30], axisRow ''x'' 40]\<rparr>)"
    by (simp add: addMissingRowsToTableBounds_def getXAxisId_def extendStart_def extendEnd_def
        numeral_3_eq_3 Let_def)
  from addMissingRowsToTableBounds_frame[OF rt r]
  obtain tbl where t: "readTable h' a' = Some tbl"
    "addMissingRowsToTableBounds 3 ?T ?D = Some (Inr tbl)"
    "take (length ?H) h' = ?H" "readTable h' 2 = Some ?T" "a' \<noteq> 2" by blast
  have "tbl = \<lparr>columns = [\<lparr>col_id = ''x'', col_name = ''time'', meta_type = None\<rparr>],
                rows = [axisRow ''x'' 20, [''x'' \<mapsto> 30], axisRow ''x'' 40]\<rparr>"
    using t(2) pure by simp
  moreover have "take 3 h' = ?H" using t(3) by (simp add: numeral_3_eq_3)
  ultimately have "a' \<noteq> 2 \<and> take 3 h' = ?H \<and> readTable h' 2 = Some ?T \<and>
        readTable h' a' =
          Some \<lparr>columns = [\<lparr>col_id = ''x'', col_name = ''time'', meta_type = None\<rparr>],
                rows = [axisRow ''x'' 20, [''x'' \<mapsto> 30], axisRow ''x'' 40]\<rparr>"
    using t(1,4,5) by simp
  then show ?thesis using r by blast
qed

end
